theory Spec2Isabelle
  imports Complex_Main
begin

section \<open>Python values used by the service\<close>

subsection \<open>Strings\<close>

text \<open>
  A Python \<open>str\<close> is a sequence of Unicode code points and is modelled as the list of
  these code points, each an integer; \<open>str\<close> embeds an ASCII literal of the source.
  File contents (\<open>bytes\<close>) are lists of integers as well.
\<close>

type_synonym pystr = "int list"

type_synonym bytes = "int list"

definition str :: "string \<Rightarrow> pystr" where
  "str s = map of_char s"

text \<open>The exceptions that the modelled code can raise.\<close>

datatype error =
    HTTPException int pystr
  | RuntimeError pystr
  | CalledProcessError int
  | ZeroDivisionError
  | ValueError
  | KeyError
  | FileNotFoundError pystr
  | EngineError

text \<open>Decimal digits of a non-negative integer, as \<open>str(n)\<close> prints them.\<close>

function digits :: "int \<Rightarrow> pystr" where
  "digits n = (if n < 10 then [48 + n] else digits (n div 10) @ [48 + n mod 10])"
  by pat_completeness auto
termination
  by (relation "measure nat") auto

declare digits.simps [simp del]

text \<open>\<open>f"{i}"\<close> for an integer.\<close>

definition str_int :: "int \<Rightarrow> pystr" where
  "str_int i = (if i < 0 then 45 # digits (- i) else digits i)"

text \<open>
  \<open>f"{n:0w}"\<close> for an integer: sign-aware zero padding to a minimum width \<open>w\<close>; a
  longer number is never cut.
\<close>

definition zfill :: "nat \<Rightarrow> pystr \<Rightarrow> pystr" where
  "zfill w s = replicate (w - length s) 48 @ s"

definition fmt0 :: "nat \<Rightarrow> int \<Rightarrow> pystr" where
  "fmt0 w n = (if n < 0 then 45 # zfill (w - 1) (digits (- n)) else zfill w (digits n))"

text \<open>
  \<open>str.strip()\<close> without argument removes leading and trailing whitespace, that is the
  code points for which \<open>str.isspace\<close> holds.
\<close>

definition isspace :: "int \<Rightarrow> bool" where
  "isspace c \<longleftrightarrow>
     (9 \<le> c \<and> c \<le> 13) \<or> (28 \<le> c \<and> c \<le> 32) \<or> c = 133 \<or> c = 160 \<or> c = 5760 \<or>
     (8192 \<le> c \<and> c \<le> 8202) \<or> c = 8232 \<or> c = 8233 \<or> c = 8239 \<or> c = 8287 \<or> c = 12288"

definition strip :: "pystr \<Rightarrow> pystr" where
  "strip s = rev (dropWhile isspace (rev (dropWhile isspace s)))"

text \<open>\<open>s.replace("\n", " ")\<close>: every line feed becomes one space.\<close>

definition replace_nl :: "pystr \<Rightarrow> pystr" where
  "replace_nl s = map (\<lambda>c. if c = 10 then 32 else c) s"

text \<open>
  \<open>s.rsplit(".", 1)[0]\<close>: the part before the last dot, or all of \<open>s\<close> when it has no dot.
\<close>

fun rsplit_dot_head :: "pystr \<Rightarrow> pystr" where
  "rsplit_dot_head [] = []"
| "rsplit_dot_head (c # cs) =
     (if 46 \<in> set cs then c # rsplit_dot_head cs
      else if c = 46 then [] else c # cs)"

subsection \<open>Floating point\<close>

text \<open>
  A Python \<open>float\<close> is an IEEE 754 binary64 number. A finite one is modelled by the
  rational number it denotes; NaN and the infinities are outside the model (the
  transcription engine reports finite times). Arithmetic on floats is the exact
  operation followed by rounding to the nearest binary64 value, ties to even:
  \<open>round64\<close>. Its unit in the last place is \<open>2 ^ (e - 52)\<close> for a value in
  \<open>[2 ^ e, 2 ^ (e + 1))\<close>, and \<open>2 ^ - 1074\<close> below the normal range. Overflow is not
  modelled: no operation of the code below yields a result larger in magnitude than
  its float operand or than 3600.
\<close>

text \<open>The number of binary digits of a positive integer.\<close>

function blen :: "int \<Rightarrow> int" where
  "blen n = (if n \<le> 0 then 0 else 1 + blen (n div 2))"
  by pat_completeness auto
termination
  by (relation "measure nat") auto

declare blen.simps [simp del]

text \<open>\<open>ilog2 x\<close> is the \<open>e\<close> with \<open>2 ^ e \<le> x < 2 ^ (e + 1)\<close>, for positive \<open>x\<close>.\<close>

definition ilog2 :: "rat \<Rightarrow> int" where
  "ilog2 x =
     (let (p, q) = quotient_of x;
          d = blen p - blen q
      in if 2 powi d \<le> x then d else d - 1)"

definition round_half_even :: "rat \<Rightarrow> int" where
  "round_half_even y =
     (let f = \<lfloor>y\<rfloor>; d = y - of_int f
      in if d < 1 / 2 then f else if 1 / 2 < d then f + 1 else if even f then f else f + 1)"

definition round64 :: "rat \<Rightarrow> rat" where
  "round64 x =
     (if x = 0 then 0
      else let e = max (ilog2 \<bar>x\<bar>) (- 1022); u = 2 powi (e - 52)
           in of_int (round_half_even (x / u)) * u)"

text \<open>The float operators \<open>-\<close>, \<open>+\<close>, \<open>*\<close>, \<open>/\<close> and the conversion of an integer.\<close>

definition fsub :: "rat \<Rightarrow> rat \<Rightarrow> rat" where
  "fsub x y = round64 (x - y)"

definition fadd :: "rat \<Rightarrow> rat \<Rightarrow> rat" where
  "fadd x y = round64 (x + y)"

definition fmul :: "rat \<Rightarrow> rat \<Rightarrow> rat" where
  "fmul x y = round64 (x * y)"

definition fdiv :: "rat \<Rightarrow> rat \<Rightarrow> rat" where
  "fdiv x y = round64 (x / y)"

definition int_to_float :: "int \<Rightarrow> rat" where
  "int_to_float n = round64 (of_int n)"

text \<open>\<open>int(x)\<close> of a float truncates towards zero.\<close>

definition py_int :: "rat \<Rightarrow> int" where
  "py_int x = (if 0 \<le> x then \<lfloor>x\<rfloor> else \<lceil>x\<rceil>)"

text \<open>
  C's \<open>fmod\<close>, which CPython calls, is exact: \<open>x - n * y\<close> for \<open>n\<close> the quotient
  truncated towards zero.
\<close>

definition c_fmod :: "rat \<Rightarrow> rat \<Rightarrow> rat" where
  "c_fmod x y = x - of_int (py_int (x / y)) * y"

text \<open>
  \<open>vx % wx\<close> on floats (CPython \<open>float_rem\<close>): \<open>fmod\<close>, moved by \<open>wx\<close> when its sign
  differs from the sign of \<open>wx\<close>.
\<close>

definition float_rem :: "rat \<Rightarrow> rat \<Rightarrow> error + rat" where
  "float_rem vx wx =
     (if wx = 0 then Inl ZeroDivisionError
      else let md = c_fmod vx wx
           in if md \<noteq> 0 \<and> ((wx < 0) \<noteq> (md < 0)) then Inr (fadd md wx) else Inr md)"

text \<open>
  \<open>vx // wx\<close> on floats (CPython \<open>float_floor_div\<close>): the quotient \<open>(vx - mod) / wx\<close>
  in float arithmetic, snapped to the nearest integral value.
\<close>

definition float_floor_div :: "rat \<Rightarrow> rat \<Rightarrow> error + rat" where
  "float_floor_div vx wx =
     (if wx = 0 then Inl ZeroDivisionError
      else let md = c_fmod vx wx;
               dv = fdiv (fsub vx md) wx;
               dv = (if md \<noteq> 0 \<and> ((wx < 0) \<noteq> (md < 0)) then fsub dv 1 else dv)
           in if dv \<noteq> 0
              then let floordiv = of_int \<lfloor>dv\<rfloor>
                   in if 1 / 2 < fsub dv floordiv then Inr (fadd floordiv 1) else Inr floordiv
              else Inr 0)"

section \<open>Timestamp formatter\<close>

text \<open>
  \<^verbatim>\<open>
  def ts(seconds: float) -> str:
      ms = int((seconds - int(seconds)) * 1000)
      h = int(seconds // 3600)
      m = int((seconds % 3600) // 60)
      s = int(seconds % 60)
      return f"{h:02}:{m:02}:{s:02},{ms:03}"
  \<close>
\<close>

definition ts :: "rat \<Rightarrow> error + pystr" where
  "ts seconds =
     (let ms = py_int (fmul (fsub seconds (int_to_float (py_int seconds))) 1000)
      in case float_floor_div seconds 3600 of Inl e \<Rightarrow> Inl e | Inr hq \<Rightarrow>
         (let h = py_int hq
          in case float_rem seconds 3600 of Inl e \<Rightarrow> Inl e | Inr r \<Rightarrow>
             (case float_floor_div r 60 of Inl e \<Rightarrow> Inl e | Inr mq \<Rightarrow>
                (let m = py_int mq
                 in case float_rem seconds 60 of Inl e \<Rightarrow> Inl e | Inr sr \<Rightarrow>
                    (let s = py_int sr
                     in Inr (fmt0 2 h @ str '':'' @ fmt0 2 m @ str '':'' @ fmt0 2 s @
                             str '','' @ fmt0 3 ms))))))"

text \<open>
  The formatter as the specification words it, over exact arithmetic:
  \<open>h = floor(seconds/3600)\<close>, \<open>m = floor((seconds mod 3600)/60)\<close>,
  \<open>s = floor(seconds mod 60)\<close>, \<open>ms = round((seconds - floor(seconds)) * 1000)\<close>,
  with \<open>h\<close>, \<open>m\<close>, \<open>s\<close> zero-padded to width 2 and \<open>ms\<close> to width 3.
\<close>

definition rat_mod :: "rat \<Rightarrow> rat \<Rightarrow> rat" where
  "rat_mod x k = x - k * of_int \<lfloor>x / k\<rfloor>"

definition hms_string :: "int \<Rightarrow> int \<Rightarrow> int \<Rightarrow> int \<Rightarrow> pystr" where
  "hms_string h m s ms =
     fmt0 2 h @ str '':'' @ fmt0 2 m @ str '':'' @ fmt0 2 s @ str '','' @ fmt0 3 ms"

definition spec_format :: "rat \<Rightarrow> pystr" where
  "spec_format seconds =
     hms_string \<lfloor>seconds / 3600\<rfloor> \<lfloor>rat_mod seconds 3600 / 60\<rfloor> \<lfloor>rat_mod seconds 60\<rfloor>
       (round ((seconds - of_int \<lfloor>seconds\<rfloor>) * 1000))"

section \<open>Plan rules\<close>

text \<open>
  \<^verbatim>\<open>def limit_for(plan): return {"gratuito": 3, "criador": 30, "pro": 9999}.get(plan, 0)\<close>
\<close>

definition plan_limits :: "(pystr \<times> int) list" where
  "plan_limits = [(str ''gratuito'', 3), (str ''criador'', 30), (str ''pro'', 9999)]"

definition limit_for :: "pystr \<Rightarrow> int" where
  "limit_for plan = (case map_of plan_limits plan of Some n \<Rightarrow> n | None \<Rightarrow> 0)"

section \<open>Caption track builder\<close>

text \<open>A timed text segment, as the transcription engine reports it.\<close>

record segment =
  seg_start :: rat
  seg_end :: rat
  seg_text :: pystr

text \<open>
  \<^verbatim>\<open>
  def write_srt(segments, srt_path):
      Path(srt_path).parent.mkdir(parents=True, exist_ok=True)
      with open(srt_path, "w", encoding="utf-8") as f:
          for i, s in enumerate(segments, start=1):
              start = ts(s.start)
              end = ts(s.end)
              text = s.text.strip().replace("\n", " ")
              f.write(f"{i}\n{start} --> {end}\n{text}\n\n")
  \<close>
  \<open>srt_loop i segments f\<close> is the loop: \<open>i\<close> the next ordinal, \<open>f\<close> what has been written
  to the file so far.
\<close>

fun srt_loop :: "int \<Rightarrow> segment list \<Rightarrow> pystr \<Rightarrow> error + pystr" where
  "srt_loop i [] f = Inr f"
| "srt_loop i (s # segments) f =
     (case ts (seg_start s) of Inl e \<Rightarrow> Inl e | Inr start \<Rightarrow>
        (case ts (seg_end s) of Inl e \<Rightarrow> Inl e | Inr end' \<Rightarrow>
           (let text = replace_nl (strip (seg_text s))
            in srt_loop (i + 1) segments
                 (f @ str_int i @ [10] @ start @ str '' --> '' @ end' @ [10] @ text @ [10, 10]))))"

text \<open>
  The four-line block of one segment: the ordinal, the two timestamps around
  \<open>" --> "\<close>, the text trimmed and with every line feed replaced by a space, and an
  empty line. \<open>ts_str\<close> is the string that \<open>ts\<close> returns.
\<close>

definition ts_str :: "rat \<Rightarrow> pystr" where
  "ts_str x = (case ts x of Inr s \<Rightarrow> s | Inl e \<Rightarrow> [])"

definition srt_block :: "int \<Rightarrow> segment \<Rightarrow> pystr" where
  "srt_block i s =
     str_int i @ [10] @ ts_str (seg_start s) @ str '' --> '' @ ts_str (seg_end s) @ [10] @
     replace_nl (strip (seg_text s)) @ [10] @ [10]"

text \<open>
  The file system is a map from path strings to file contents; directories are not
  modelled.
\<close>

type_synonym fs = "pystr \<Rightarrow> int list option"

definition write_srt :: "fs \<Rightarrow> segment list \<Rightarrow> pystr \<Rightarrow> error + fs" where
  "write_srt files segments srt_path =
     (case srt_loop 1 segments [] of Inl e \<Rightarrow> Inl e | Inr doc \<Rightarrow> Inr (files(srt_path \<mapsto> doc)))"

section \<open>Paths\<close>

text \<open>
  \<open>pathlib.Path\<close> on a POSIX system, as far as \<open>burn_subs\<close> uses it. A parsed path is
  its root (\<open>""\<close>, \<open>"/"\<close> or \<open>"//"\<close>) and its components; empty components and \<open>"."\<close>
  are dropped when parsing.
\<close>

fun split_on :: "int \<Rightarrow> pystr \<Rightarrow> pystr list" where
  "split_on sep [] = [[]]"
| "split_on sep (c # cs) =
     (if c = sep then [] # split_on sep cs
      else (case split_on sep cs of [] \<Rightarrow> [[c]] | x # xs \<Rightarrow> (c # x) # xs))"

type_synonym path = "pystr \<times> pystr list"

definition Path :: "pystr \<Rightarrow> path" where
  "Path p =
     (let root = (if take 1 p = [47]
                  then (if take 2 p = [47, 47] \<and> take 3 p \<noteq> [47, 47, 47] then [47, 47] else [47])
                  else [])
      in (root, filter (\<lambda>c. c \<noteq> [] \<and> c \<noteq> [46]) (split_on 47 p)))"

fun join_slash :: "pystr list \<Rightarrow> pystr" where
  "join_slash [] = []"
| "join_slash [x] = x"
| "join_slash (x # y # ys) = x @ [47] @ join_slash (y # ys)"

text \<open>\<open>str(path)\<close>, which on POSIX is also \<open>path.as_posix()\<close>.\<close>

definition path_str :: "path \<Rightarrow> pystr" where
  "path_str p = (if fst p = [] \<and> snd p = [] then [46] else fst p @ join_slash (snd p))"

definition path_name :: "path \<Rightarrow> pystr" where
  "path_name p = (if snd p = [] then [] else last (snd p))"

text \<open>
  \<^verbatim>\<open>
  i = name.rfind('.')
  if 0 < i < len(name) - 1: return name[:i]
  else: return name
  \<close>
\<close>

definition path_stem :: "path \<Rightarrow> pystr" where
  "path_stem p =
     (let name = path_name p; i = length (rsplit_dot_head name)
      in if 46 \<in> set name \<and> 0 < i \<and> i + 1 < length name then take i name else name)"

definition path_suffix :: "path \<Rightarrow> pystr" where
  "path_suffix p =
     (let name = path_name p; i = length (rsplit_dot_head name)
      in if 46 \<in> set name \<and> 0 < i \<and> i + 1 < length name then drop i name else [])"

text \<open>
  \<open>with_name\<close> raises \<open>ValueError\<close> on a path without a name and on a new name that
  is not a single component.
\<close>

definition with_name :: "path \<Rightarrow> pystr \<Rightarrow> error + path" where
  "with_name p name =
     (if path_name p = [] then Inl ValueError
      else if name = [] \<or> last name = 47 \<or> fst (Path name) \<noteq> [] \<or> length (snd (Path name)) \<noteq> 1
      then Inl ValueError
      else Inr (fst p, butlast (snd p) @ [name]))"

text \<open>\<open>os.path.join("temp", name)\<close> and \<open>os.path.basename\<close>.\<close>

definition join_temp :: "pystr \<Rightarrow> pystr" where
  "join_temp name = (if take 1 name = [47] then name else str ''temp/'' @ name)"

definition basename :: "pystr \<Rightarrow> pystr" where
  "basename p = rev (takeWhile (\<lambda>c. c \<noteq> 47) (rev p))"

section \<open>The service and its collaborators\<close>

subsection \<open>Record store\<close>

text \<open>
  The Supabase tables \<open>usuarios\<close> (user and plan) and \<open>usos\<close> (one row per recorded
  use). A timestamp is year, month, day and the microsecond within the day, ordered
  lexicographically.
\<close>

type_synonym datetime = "int \<times> int \<times> int \<times> int"

definition dt_le :: "datetime \<Rightarrow> datetime \<Rightarrow> bool" where
  "dt_le a b =
     (case (a, b) of ((y1, m1, d1, t1), (y2, m2, d2, t2)) \<Rightarrow>
        y1 < y2 \<or> (y1 = y2 \<and> (m1 < m2 \<or> (m1 = m2 \<and> (d1 < d2 \<or> (d1 = d2 \<and> t1 \<le> t2))))))"

record usuario =
  u_email :: pystr
  u_plano :: pystr

record uso =
  uso_email :: pystr
  uso_video_nome :: pystr
  uso_plano :: pystr
  uso_data :: datetime

record db =
  usuarios :: "usuario list"
  usos :: "uso list"

subsection \<open>External collaborators and state\<close>

text \<open>
  A call of an external collaborator: the transcoder with its argument vector, or the
  transcription engine with the audio path.
\<close>

datatype call = Ffmpeg "pystr list" | Whisper pystr

text \<open>
  The state that a request reads and changes: the files, the module global
  \<open>supabase\<close> (\<open>None\<close> when the client is not configured, otherwise the tables behind
  it) and the log of external calls made so far.
\<close>

record world =
  files :: fs
  supabase :: "db option"
  calls :: "call list"

text \<open>
  What the environment decides: the fresh identifier, the transcoder (its exit
  status and the output file it leaves, if it leaves one: neither status guarantees
  or excludes a file), the transcription engine (\<open>None\<close> when it raises,
  \<open>EngineError\<close> in this model), the clock of the server, the payment settings, the
  payment provider's verification, and which rows of the store a filter on a null
  email selects (\<open>eq_null\<close>, a matter of the store client).

  The schema of the table \<open>usos\<close> is not part of the repository: the value of the
  column \<open>data\<close> of an inserted row, which the insert leaves to the database, is the
  parameter \<open>db_now\<close>.
\<close>

text \<open>
  A verified payment event: its type and the value found at
  \<open>["data"]["object"]["customer_details"]["email"]\<close>, which may be missing, null or
  a string.
\<close>

datatype field = Missing | Null | Value pystr

record event =
  ev_type :: pystr
  ev_email :: field

record env =
  uuid4 :: pystr
  ffmpeg :: "pystr list \<Rightarrow> int \<times> int list option"
  whisper :: "pystr \<Rightarrow> segment list option"
  utcnow :: datetime
  db_now :: datetime
  STRIPE_WEBHOOK_SECRET :: "pystr option"
  construct_event :: "int list \<Rightarrow> pystr option \<Rightarrow> pystr \<Rightarrow> event option"
  eq_null :: "pystr \<Rightarrow> bool"

text \<open>The files after a transcoder run that was to write \<open>out_path\<close>.\<close>

definition leave_output :: "env \<Rightarrow> pystr list \<Rightarrow> pystr \<Rightarrow> fs \<Rightarrow> fs" where
  "leave_output e argv out_path fs0 =
     (case snd (ffmpeg e argv) of None \<Rightarrow> fs0 | Some content \<Rightarrow> fs0(out_path \<mapsto> content))"

text \<open>
  \<open>subprocess.run(argv, check=True)\<close> for the transcoder writing \<open>out_path\<close>: the call
  is logged; a non-zero exit status raises \<open>CalledProcessError\<close>. A transcoder that
  cannot be started is not modelled.
\<close>

definition run_ffmpeg :: "env \<Rightarrow> world \<Rightarrow> pystr list \<Rightarrow> pystr \<Rightarrow> (error + unit) \<times> world" where
  "run_ffmpeg e w argv out_path =
     (let w1 = w\<lparr>calls := calls w @ [Ffmpeg argv],
                  files := leave_output e argv out_path (files w)\<rparr>
      in if fst (ffmpeg e argv) = 0 then (Inr (), w1)
         else (Inl (CalledProcessError (fst (ffmpeg e argv))), w1))"

subsection \<open>Helpers\<close>

text \<open>
  \<^verbatim>\<open>
  def save_temp_file(upload, ext):
      ensure_temp()
      name = f"{uuid.uuid4()}{ext}"
      path = os.path.join("temp", name)
      with open(path, "wb") as f: f.write(upload.file.read())
      return path
  \<close>
\<close>

definition save_temp_file :: "env \<Rightarrow> world \<Rightarrow> int list \<Rightarrow> pystr \<Rightarrow> pystr \<times> world" where
  "save_temp_file e w upload ext =
     (let name = uuid4 e @ ext; path = join_temp name
      in (path, w\<lparr>files := (files w)(path \<mapsto> upload)\<rparr>))"

text \<open>
  \<^verbatim>\<open>
  def extract_audio(video_path):
      audio_path = video_path.rsplit(".", 1)[0] + ".mp3"
      subprocess.run(["ffmpeg", "-y", "-i", video_path, "-q:a", "0", "-map", "a", audio_path], check=True)
      return audio_path
  \<close>
\<close>

definition extract_cmd :: "pystr \<Rightarrow> pystr \<Rightarrow> pystr list" where
  "extract_cmd video_path audio_path =
     [str ''ffmpeg'', str ''-y'', str ''-i'', video_path, str ''-q:a'', str ''0'', str ''-map'',
      str ''a'', audio_path]"

definition extract_audio :: "env \<Rightarrow> world \<Rightarrow> pystr \<Rightarrow> (error + pystr) \<times> world" where
  "extract_audio e w video_path =
     (let audio_path = rsplit_dot_head video_path @ str ''.mp3''
      in case run_ffmpeg e w (extract_cmd video_path audio_path) audio_path of
           (Inl err, w1) \<Rightarrow> (Inl err, w1)
         | (Inr u, w1) \<Rightarrow> (Inr audio_path, w1))"

text \<open>
  \<^verbatim>\<open>
  def transcribe_segments(audio_path):
      segments, _ = model.transcribe(audio_path, beam_size=5)
      return list(segments)
  \<close>
\<close>

definition transcribe_segments :: "env \<Rightarrow> world \<Rightarrow> pystr \<Rightarrow> (error + segment list) \<times> world" where
  "transcribe_segments e w audio_path =
     (case whisper e audio_path of
        None \<Rightarrow> (Inl EngineError, w\<lparr>calls := calls w @ [Whisper audio_path]\<rparr>)
      | Some segments \<Rightarrow> (Inr segments, w\<lparr>calls := calls w @ [Whisper audio_path]\<rparr>))"

subsection \<open>Caption renderer\<close>

text \<open>
  \<^verbatim>\<open>
  def burn_subs(video_path, srt_path):
      base = Path(video_path)
      out_path = str(base.with_name(base.stem + "_final.mp4"))
      video_posix = Path(video_path).as_posix()
      srt_posix = Path(srt_path).as_posix()
      out_posix = Path(out_path).as_posix()
      if not os.path.exists(srt_path):
          raise RuntimeError(f"SRT nao encontrado: {srt_path}")
      vf = f"subtitles={srt_posix}:force_style='FontName=Arial,FontSize=40,PrimaryColour=&H00FFFFFF,OutlineColour=&H00000000,BorderStyle=1,Outline=3'"
      try:
          subprocess.run(["ffmpeg", "-y", "-i", video_posix, "-vf", vf, "-c:a", "copy", out_posix], check=True)
      except subprocess.CalledProcessError:
          subprocess.run(["ffmpeg", "-y", "-i", video_posix, "-vf", f"subtitles={srt_posix}", "-c:a", "copy", out_posix], check=True)
      return out_path
  \<close>
\<close>

definition out_path_of :: "pystr \<Rightarrow> error + pystr" where
  "out_path_of video_path =
     (let base = Path video_path
      in case with_name base (path_stem base @ str ''_final.mp4'') of
           Inl err \<Rightarrow> Inl err
         | Inr p \<Rightarrow> Inr (path_str p))"

definition plain_filter :: "pystr \<Rightarrow> pystr" where
  "plain_filter srt_posix = str ''subtitles='' @ srt_posix"

definition force_style :: pystr where
  "force_style =
     str '':force_style='' @ [39] @
     str ''FontName=Arial,FontSize=40,PrimaryColour=&H00FFFFFF,OutlineColour=&H00000000,BorderStyle=1,Outline=3'' @
     [39]"

definition styled_filter :: "pystr \<Rightarrow> pystr" where
  "styled_filter srt_posix = str ''subtitles='' @ srt_posix @ force_style"

definition burn_cmd :: "pystr \<Rightarrow> pystr \<Rightarrow> pystr \<Rightarrow> pystr list" where
  "burn_cmd video_posix vf out_posix =
     [str ''ffmpeg'', str ''-y'', str ''-i'', video_posix, str ''-vf'', vf, str ''-c:a'', str ''copy'',
      out_posix]"

definition burn_subs :: "env \<Rightarrow> world \<Rightarrow> pystr \<Rightarrow> pystr \<Rightarrow> (error + pystr) \<times> world" where
  "burn_subs e w video_path srt_path =
     (case out_path_of video_path of
        Inl err \<Rightarrow> (Inl err, w)
      | Inr out_path \<Rightarrow>
          (let video_posix = path_str (Path video_path);
               srt_posix = path_str (Path srt_path);
               out_posix = path_str (Path out_path)
           in if files w srt_path = None
              then (Inl (RuntimeError (str ''SRT n'' @ [227] @ str ''o encontrado: '' @ srt_path)), w)
              else (case run_ffmpeg e w (burn_cmd video_posix (styled_filter srt_posix) out_posix) out_posix of
                      (Inr u, w1) \<Rightarrow> (Inr out_path, w1)
                    | (Inl (CalledProcessError rc), w1) \<Rightarrow>
                        (case run_ffmpeg e w1 (burn_cmd video_posix (plain_filter srt_posix) out_posix) out_posix of
                           (Inr u, w2) \<Rightarrow> (Inr out_path, w2)
                         | (Inl err, w2) \<Rightarrow> (Inl err, w2))
                    | (Inl err, w1) \<Rightarrow> (Inl err, w1))))"

subsection \<open>Plan and quota\<close>

text \<open>
  \<^verbatim>\<open>
  def get_or_create_user(email):
      if not supabase: return "gratuito"
      r = supabase.table("usuarios").select("*").eq("email", email).execute()
      if len(r.data) == 0:
          supabase.table("usuarios").insert({"email": email, "plano": "gratuito"}).execute()
          return "gratuito"
      return r.data[0]["plano"]
  \<close>
\<close>

definition get_or_create_user :: "world \<Rightarrow> pystr \<Rightarrow> pystr \<times> world" where
  "get_or_create_user w email =
     (case supabase w of
        None \<Rightarrow> (str ''gratuito'', w)
      | Some d \<Rightarrow>
          (case filter (\<lambda>u. u_email u = email) (usuarios d) of
             [] \<Rightarrow> (str ''gratuito'',
                    w\<lparr>supabase := Some (d\<lparr>usuarios := usuarios d @
                         [\<lparr>u_email = email, u_plano = str ''gratuito''\<rparr>]\<rparr>)\<rparr>)
           | u # us \<Rightarrow> (u_plano u, w)))"

text \<open>
  \<^verbatim>\<open>
  def count_uses_this_month(email):
      if not supabase: return 0
      today = datetime.datetime.utcnow()
      start = datetime.datetime(today.year, today.month, 1)
      r = supabase.table("usos").select("*").eq("email", email).gte("data", start.isoformat()).execute()
      return len(r.data)
  \<close>
\<close>

definition count_uses_this_month :: "env \<Rightarrow> world \<Rightarrow> pystr \<Rightarrow> int" where
  "count_uses_this_month e w email =
     (case supabase w of
        None \<Rightarrow> 0
      | Some d \<Rightarrow>
          (case utcnow e of (year, month, day, t) \<Rightarrow>
             (let start = (year, month, 1, 0)
              in int (length (filter (\<lambda>r. uso_email r = email \<and> dt_le start (uso_data r)) (usos d))))))"

text \<open>
  \<^verbatim>\<open>
  def add_use(email, video_name, plan):
      if supabase:
          supabase.table("usos").insert({"email": email, "video_nome": video_name, "plano": plan}).execute()
  \<close>
\<close>

definition add_use :: "env \<Rightarrow> world \<Rightarrow> pystr \<Rightarrow> pystr \<Rightarrow> pystr \<Rightarrow> world" where
  "add_use e w email video_name plan =
     (case supabase w of
        None \<Rightarrow> w
      | Some d \<Rightarrow>
          w\<lparr>supabase := Some (d\<lparr>usos := usos d @
               [\<lparr>uso_email = email, uso_video_nome = video_name, uso_plano = plan,
                 uso_data = db_now e\<rparr>]\<rparr>)\<rparr>)"

subsection \<open>Pipeline orchestrator\<close>

text \<open>The streamed answer: body, media type and headers.\<close>

record response =
  body :: "int list"
  media_type :: pystr
  headers :: "(pystr \<times> pystr) list"

definition quota_message :: "pystr \<Rightarrow> int \<Rightarrow> pystr" where
  "quota_message plan limit =
     str ''Limite do plano '' @ [39] @ plan @ [39] @ str '' atingido ('' @ str_int limit @
     str ''/m'' @ [234] @ str ''s). Fa'' @ [231] @ str ''a upgrade.''"

text \<open>
  \<^verbatim>\<open>
  def full_process(file, email):
      if not email or "@" not in email:
          raise HTTPException(400, "Informe um e-mail valido.")
      plan = get_or_create_user(email)
      used = count_uses_this_month(email)
      limit = limit_for(plan)
      if used >= limit:
          raise HTTPException(403, f"Limite do plano '{plan}' atingido ({limit}/mes). Faca upgrade.")
      video_path = save_temp_file(file, ".mp4")
      audio_path = extract_audio(video_path)
      segs = transcribe_segments(audio_path)
      srt_path = video_path.rsplit(".", 1)[0] + ".srt"
      write_srt(segs, srt_path)
      final_path = burn_subs(video_path, srt_path)
      add_use(email, os.path.basename(video_path), plan)
      headers = {"Content-Disposition": f'attachment; filename="video_legenda.mp4"'}
      return StreamingResponse(open(final_path, "rb"), media_type="video/mp4", headers=headers)
  \<close>
  An exception ends the request at once and leaves the state as it is at that
  point. The accented letters of the messages are written without accent in the
  listings; the definitions give their code points.
\<close>

definition deliver :: "world \<Rightarrow> pystr \<Rightarrow> error + response" where
  "deliver w final_path =
     (case files w final_path of
        None \<Rightarrow> Inl (FileNotFoundError final_path)
      | Some content \<Rightarrow>
          Inr \<lparr>body = content, media_type = str ''video/mp4'',
               headers = [(str ''Content-Disposition'',
                           str ''attachment; filename='' @ [34] @ str ''video_legenda.mp4'' @ [34])]\<rparr>)"

definition pipeline :: "env \<Rightarrow> world \<Rightarrow> int list \<Rightarrow> pystr \<Rightarrow> pystr \<Rightarrow> (error + response) \<times> world" where
  "pipeline e w1 file email plan =
     (case save_temp_file e w1 file (str ''.mp4'') of (video_path, w2) \<Rightarrow>
        (case extract_audio e w2 video_path of
           (Inl err, w3) \<Rightarrow> (Inl err, w3)
         | (Inr audio_path, w3) \<Rightarrow>
             (case transcribe_segments e w3 audio_path of
                (Inl err, w4) \<Rightarrow> (Inl err, w4)
              | (Inr segs, w4) \<Rightarrow>
                  (let srt_path = rsplit_dot_head video_path @ str ''.srt''
                   in case write_srt (files w4) segs srt_path of
                        Inl err \<Rightarrow> (Inl err, w4)
                      | Inr fs5 \<Rightarrow>
                          (case burn_subs e (w4\<lparr>files := fs5\<rparr>) video_path srt_path of
                             (Inl err, w6) \<Rightarrow> (Inl err, w6)
                           | (Inr final_path, w6) \<Rightarrow>
                               (let w7 = add_use e w6 email (basename video_path) plan
                                in (deliver w7 final_path, w7)))))))"

definition full_process :: "env \<Rightarrow> world \<Rightarrow> int list \<Rightarrow> pystr \<Rightarrow> (error + response) \<times> world" where
  "full_process e w file email =
     (if email = [] \<or> 64 \<notin> set email
      then (Inl (HTTPException 400 (str ''Informe um e-mail v'' @ [225] @ str ''lido.'')), w)
      else (case get_or_create_user w email of (plan, w1) \<Rightarrow>
              (let used = count_uses_this_month e w1 email;
                   limit = limit_for plan
               in if limit \<le> used
                  then (Inl (HTTPException 403 (quota_message plan limit)), w1)
                  else pipeline e w1 file email plan)))"

subsection \<open>Payment webhook\<close>

text \<open>
  \<^verbatim>\<open>
  async def stripe_webhook(request):
      if not STRIPE_WEBHOOK_SECRET or not supabase:
          return {"status": "ignored"}
      payload = await request.body()
      sig = request.headers.get("stripe-signature")
      try:
          event = stripe.Webhook.construct_event(payload, sig, STRIPE_WEBHOOK_SECRET)
      except Exception:
          raise HTTPException(400, "Webhook invalido")
      if event["type"] == "checkout.session.completed":
          session = event["data"]["object"]
          email = session["customer_details"]["email"]
          supabase.table("usuarios").update({"plano": "criador"}).eq("email", email).execute()
      return {"status": "ok"}
  \<close>
  \<open>construct_event\<close> yields \<open>None\<close> when the verification raises. A checkout event
  without the customer's email raises \<open>KeyError\<close>; with a null email the update is
  sent with a null filter value and touches the rows that \<open>eq_null\<close> selects. The
  answer is the returned dictionary, sent with status 200.
\<close>

definition stripe_webhook ::
    "env \<Rightarrow> world \<Rightarrow> int list \<Rightarrow> pystr option \<Rightarrow> (error + (pystr \<times> pystr) list) \<times> world" where
  "stripe_webhook e w payload sig =
     (case STRIPE_WEBHOOK_SECRET e of
        None \<Rightarrow> (Inr [(str ''status'', str ''ignored'')], w)
      | Some secret \<Rightarrow>
          (if secret = [] then (Inr [(str ''status'', str ''ignored'')], w)
           else (case supabase w of
                   None \<Rightarrow> (Inr [(str ''status'', str ''ignored'')], w)
                 | Some d \<Rightarrow>
                     (case construct_event e payload sig secret of
                        None \<Rightarrow> (Inl (HTTPException 400 (str ''Webhook inv'' @ [225] @ str ''lido'')), w)
                      | Some ev \<Rightarrow>
                          (if ev_type ev = str ''checkout.session.completed''
                           then (case ev_email ev of
                                   Missing \<Rightarrow> (Inl KeyError, w)
                                 | Null \<Rightarrow>
                                     (Inr [(str ''status'', str ''ok'')],
                                      w\<lparr>supabase := Some (d\<lparr>usuarios :=
                                           map (\<lambda>u. if eq_null e (u_email u)
                                                     then u\<lparr>u_plano := str ''criador''\<rparr> else u)
                                               (usuarios d)\<rparr>)\<rparr>)
                                 | Value email \<Rightarrow>
                                     (Inr [(str ''status'', str ''ok'')],
                                      w\<lparr>supabase := Some (d\<lparr>usuarios :=
                                           map (\<lambda>u. if u_email u = email
                                                     then u\<lparr>u_plano := str ''criador''\<rparr> else u)
                                               (usuarios d)\<rparr>)\<rparr>))
                           else (Inr [(str ''status'', str ''ok'')], w))))))"

section \<open>Reachable stores\<close>

text \<open>
  The email check of \<open>full_process\<close>, and the stores in which every row is keyed by
  an address that passes it. The service inserts rows only after that check, and the
  webhook only updates plans.
\<close>

definition valid_email :: "pystr \<Rightarrow> bool" where
  "valid_email email = (email \<noteq> [] \<and> 64 \<in> set email)"

definition store_ok :: "world \<Rightarrow> bool" where
  "store_ok w =
     (case supabase w of
        None \<Rightarrow> True
      | Some d \<Rightarrow> list_all (\<lambda>u. valid_email (u_email u)) (usuarios d) \<and>
                 list_all (\<lambda>r. valid_email (uso_email r)) (usos d))"

section \<open>Sample environments\<close>

text \<open>
  Concrete collaborators and states on which the theorems below are instantiated:
  a transcoder that always succeeds, one whose styled rendering fails, one that
  always fails, one that exits with status 0 and leaves no file; an engine reporting
  two segments; a store without rows, a store in which an address has used up the
  free plan, no store at all, and a state holding a caption track.
\<close>

definition env_ok :: env where
  "env_ok =
     \<lparr>uuid4 = str ''job'',
      ffmpeg = (\<lambda>argv. (0, Some [1, 2, 3])),
      whisper = (\<lambda>p. Some [\<lparr>seg_start = 0, seg_end = 2, seg_text = str ''hello''\<rparr>,
                              \<lparr>seg_start = 2, seg_end = 9 / 2, seg_text = str ''world''\<rparr>]),
      utcnow = (2025, 5, 17, 0),
      db_now = (2025, 5, 17, 1),
      STRIPE_WEBHOOK_SECRET = Some (str ''whsec''),
      construct_event = (\<lambda>payload sig secret. Some \<lparr>ev_type = str ''invoice.paid'', ev_email = Missing\<rparr>),
      eq_null = (\<lambda>email. False)\<rparr>"

definition env_style_fails :: env where
  "env_style_fails =
     env_ok\<lparr>ffmpeg :=
       (\<lambda>argv. if argv = burn_cmd (str ''temp/job.mp4'') (styled_filter (str ''temp/job.srt''))
                              (str ''temp/job_final.mp4'')
               then (1, None) else (0, Some [1, 2, 3]))\<rparr>"

definition env_fails :: env where
  "env_fails = env_ok\<lparr>ffmpeg := (\<lambda>argv. (1, None))\<rparr>"

definition env_no_output :: env where
  "env_no_output =
     env_ok\<lparr>ffmpeg := (\<lambda>argv. if length argv = 9 \<and> argv ! 4 = str ''-vf'' then (0, None)
                               else (0, Some [1, 2, 3]))\<rparr>"

definition w_empty :: world where
  "w_empty = \<lparr>files = Map.empty, supabase = Some \<lparr>usuarios = [], usos = []\<rparr>, calls = []\<rparr>"

definition w_none :: world where
  "w_none = \<lparr>files = Map.empty, supabase = None, calls = []\<rparr>"

definition w_srt :: world where
  "w_srt = \<lparr>files = [str ''temp/job.srt'' \<mapsto> []], supabase = None, calls = []\<rparr>"

definition uso_ab :: uso where
  "uso_ab = \<lparr>uso_email = str ''a@b.com'', uso_video_nome = str ''v.mp4'',
             uso_plano = str ''gratuito'', uso_data = (2025, 5, 2, 0)\<rparr>"

definition w_full :: world where
  "w_full = \<lparr>files = Map.empty,
             supabase = Some \<lparr>usuarios = [\<lparr>u_email = str ''a@b.com'', u_plano = str ''gratuito''\<rparr>],
                              usos = [uso_ab, uso_ab, uso_ab]\<rparr>,
             calls = []\<rparr>"

section \<open>Verified properties\<close>

subsection \<open>Timestamp formatter\<close>

text \<open>Binary64 rounding leaves an integer below \<open>2 ^ 53\<close> unchanged.\<close>

lemma blen_le: "n < 2 ^ k \<Longrightarrow> blen n \<le> int k"
proof (induction k arbitrary: n)
  case 0
  then show ?case by (simp add: blen.simps)
next
  case (Suc k)
  show ?case
  proof (cases "n \<le> 0")
    case True
    then show ?thesis by (simp add: blen.simps)
  next
    case False
    from Suc.prems have "n div 2 < 2 ^ k" by simp
    then have "blen (n div 2) \<le> int k" by (rule Suc.IH)
    with False show ?thesis by (subst blen.simps) simp
  qed
qed

lemma ilog2_of_int_le:
  assumes "0 < n" "n < 2 ^ 53"
  shows "ilog2 (of_int n) \<le> 52"
proof -
  have q: "quotient_of (of_int n :: rat) = (n, 1)" by simp
  have "blen n \<le> int 53" using assms(2) by (intro blen_le) simp
  moreover have "blen 1 = 1" by (simp add: blen.simps)
  ultimately show ?thesis
    by (simp add: ilog2_def q Let_def)
qed

lemma round_half_even_of_int: "round_half_even (of_int m) = m"
  by (simp add: round_half_even_def)

lemma round64_of_int:
  assumes "\<bar>n\<bar> < 2 ^ 53"
  shows "round64 (of_int n) = of_int n"
proof (cases "n = 0")
  case True
  then show ?thesis by (simp add: round64_def)
next
  case False
  define x :: rat where "x = of_int n"
  define e where "e = max (ilog2 \<bar>x\<bar>) (- 1022)"
  define k where "k = nat (52 - e)"
  have "\<bar>x\<bar> = of_int \<bar>n\<bar>" by (simp add: x_def)
  moreover have "ilog2 (of_int \<bar>n\<bar>) \<le> 52"
    using False assms by (intro ilog2_of_int_le) auto
  ultimately have e: "e \<le> 52" by (simp add: e_def)
  then have ek: "e - 52 = - int k" by (simp add: k_def)
  have u: "(2::rat) powi (e - 52) = inverse (2 ^ k)"
    unfolding ek by (simp add: power_int_minus)
  have "x / (2 powi (e - 52)) = of_int (n * 2 ^ k)"
    by (simp add: u x_def field_simps)
  then have "round_half_even (x / (2 powi (e - 52))) = n * 2 ^ k"
    by (simp only: round_half_even_of_int)
  then have "of_int (round_half_even (x / (2 powi (e - 52)))) * (2 powi (e - 52)) = x"
    by (simp add: u x_def)
  moreover have "x \<noteq> 0" using False by (simp add: x_def)
  ultimately show ?thesis
    unfolding x_def[symmetric] by (simp add: round64_def Let_def e_def)
qed

lemma round_half_even_nonneg: "0 \<le> y \<Longrightarrow> 0 \<le> round_half_even y"
  by (simp add: round_half_even_def Let_def)

lemma round64_nonneg:
  assumes "0 \<le> x"
  shows "0 \<le> round64 x"
proof (cases "x = 0")
  case True
  then show ?thesis by (simp add: round64_def)
next
  case False
  define u :: rat where "u = 2 powi (max (ilog2 \<bar>x\<bar>) (- 1022) - 52)"
  have u: "0 < u" by (simp add: u_def)
  then have "0 \<le> x / u" using assms by simp
  then have "0 \<le> round_half_even (x / u)" by (rule round_half_even_nonneg)
  then have "0 \<le> of_int (round_half_even (x / u)) * u" using u by simp
  then show ?thesis using False by (simp add: round64_def Let_def u_def)
qed

lemma py_int_nonneg: "0 \<le> x \<Longrightarrow> py_int x = \<lfloor>x\<rfloor>"
  by (simp add: py_int_def)

lemma c_fmod_nonneg:
  assumes "0 \<le> x" "0 < w"
  shows "c_fmod x w = x - of_int \<lfloor>x / w\<rfloor> * w"
    and "0 \<le> c_fmod x w" and "c_fmod x w < w"
proof -
  have "0 \<le> x / w" using assms by simp
  then show eq: "c_fmod x w = x - of_int \<lfloor>x / w\<rfloor> * w"
    by (simp add: c_fmod_def py_int_nonneg)
  have "of_int \<lfloor>x / w\<rfloor> * w \<le> x"
    using of_int_floor_le[of "x / w"] unfolding pos_le_divide_eq[OF assms(2)] .
  then show "0 \<le> c_fmod x w" by (simp add: eq)
  have "x / w < of_int \<lfloor>x / w\<rfloor> + 1" by linarith
  then have "x < (of_int \<lfloor>x / w\<rfloor> + 1) * w" using assms(2) by (simp add: pos_divide_less_eq)
  then show "c_fmod x w < w" by (simp add: eq algebra_simps)
qed

lemma float_rem_nonneg:
  assumes "0 \<le> x" "0 < w"
  shows "float_rem x w = Inr (x - of_int \<lfloor>x / w\<rfloor> * w)"
  using assms c_fmod_nonneg[OF assms]
  by (auto simp: float_rem_def Let_def)

lemma float_floor_div_nonneg:
  assumes "0 \<le> x" "x < 2 ^ 53" "0 < k"
  shows "float_floor_div x (of_int k) = Inr (of_int \<lfloor>x / of_int k\<rfloor>)"
proof -
  define w :: rat where "w = of_int k"
  define q where "q = \<lfloor>x / w\<rfloor>"
  have w: "0 < w" "1 \<le> w" using assms(3) by (simp_all add: w_def)
  note fm = c_fmod_nonneg[OF assms(1) w(1)]
  have q0: "0 \<le> q" using assms(1) w(1) by (simp add: q_def)
  have qw: "of_int q * w \<le> x"
    using of_int_floor_le[of "x / w"] unfolding pos_le_divide_eq[OF w(1)] q_def .
  have "of_int q * 1 \<le> of_int q * w" using q0 w(2) by (intro mult_left_mono) auto
  then have qx: "(of_int q :: rat) \<le> x" using qw by simp
  have "(of_int (q * k) :: rat) < 2 ^ 53" using qw assms(2) by (simp add: w_def)
  then have "q * k < 2 ^ 53" by (metis of_int_less_numeral_power_cancel_iff)
  moreover have "0 \<le> q * k" using q0 assms(3) by simp
  ultimately have r1: "round64 (of_int (q * k)) = of_int (q * k)"
    by (intro round64_of_int) simp
  have "(of_int q :: rat) < 2 ^ 53" using qx assms(2) by simp
  then have "q < 2 ^ 53" by (metis of_int_less_numeral_power_cancel_iff)
  then have r2: "round64 (of_int q) = of_int q"
    using q0 by (intro round64_of_int) simp
  have "x - c_fmod x w = of_int (q * k)"
    unfolding fm(1) by (simp add: q_def w_def)
  then have sub: "fsub x (c_fmod x w) = of_int (q * k)"
    using r1 by (simp add: fsub_def)
  have "of_int (q * k) / w = (of_int q :: rat)"
    using w(1) by (simp add: w_def)
  then have dv: "fdiv (fsub x (c_fmod x w)) w = of_int q"
    unfolding fdiv_def sub using r2 by simp
  have z: "fsub (of_int q) (of_int q) = 0" by (simp add: fsub_def round64_def)
  have cond: "(c_fmod x w \<noteq> 0 \<and> ((w < 0) \<noteq> (c_fmod x w < 0))) = False"
    using fm w by auto
  have "w \<noteq> 0" using w(1) by simp
  then have "float_floor_div x w = Inr (of_int q)"
    unfolding float_floor_div_def Let_def cond by (simp add: dv z)
  then show ?thesis by (simp add: w_def q_def)
qed

lemma ts_nonneg:
  assumes "0 \<le> x" "x < 2 ^ 53"
  shows "ts x = Inr (hms_string \<lfloor>x / 3600\<rfloor> \<lfloor>rat_mod x 3600 / 60\<rfloor> \<lfloor>rat_mod x 60\<rfloor>
                      \<lfloor>fmul (fsub x (of_int \<lfloor>x\<rfloor>)) 1000\<rfloor>)"
proof -
  have fl: "0 \<le> \<lfloor>x\<rfloor>" using assms(1) by simp
  have "(of_int \<lfloor>x\<rfloor> :: rat) < 2 ^ 53" using assms by linarith
  then have "\<lfloor>x\<rfloor> < 2 ^ 53" by (metis of_int_less_numeral_power_cancel_iff)
  then have i2f: "int_to_float (py_int x) = of_int \<lfloor>x\<rfloor>"
    using fl assms(1) by (simp add: int_to_float_def py_int_nonneg round64_of_int)
  have frac: "0 \<le> x - of_int \<lfloor>x\<rfloor>" by simp
  have "0 \<le> fmul (fsub x (of_int \<lfloor>x\<rfloor>)) 1000"
    unfolding fmul_def fsub_def using frac
    by (intro round64_nonneg mult_nonneg_nonneg) simp_all
  then have ms: "py_int (fmul (fsub x (int_to_float (py_int x))) 1000) =
      \<lfloor>fmul (fsub x (of_int \<lfloor>x\<rfloor>)) 1000\<rfloor>"
    by (simp add: i2f py_int_nonneg)
  have h: "float_floor_div x 3600 = Inr (of_int \<lfloor>x / 3600\<rfloor>)"
    using float_floor_div_nonneg[OF assms, of 3600] by simp
  have r: "float_rem x 3600 = Inr (rat_mod x 3600)"
    using float_rem_nonneg[OF assms(1), of 3600] by (simp add: rat_mod_def mult.commute)
  have r0: "0 \<le> rat_mod x 3600" and r1: "rat_mod x 3600 < 3600"
    using c_fmod_nonneg[OF assms(1), of 3600] by (simp_all add: rat_mod_def mult.commute)
  have "rat_mod x 3600 < 2 ^ 53" using r1 by simp
  then have m: "float_floor_div (rat_mod x 3600) 60 = Inr (of_int \<lfloor>rat_mod x 3600 / 60\<rfloor>)"
    using float_floor_div_nonneg[OF r0, of 60] by simp
  have s: "float_rem x 60 = Inr (rat_mod x 60)"
    using float_rem_nonneg[OF assms(1), of 60] by (simp add: rat_mod_def mult.commute)
  have s0: "0 \<le> rat_mod x 60"
    using c_fmod_nonneg[OF assms(1), of 60] by (simp_all add: rat_mod_def mult.commute)
  have pi: "\<And>n. py_int (of_int n) = n" by (simp add: py_int_def)
  show ?thesis
    unfolding ts_def Let_def ms
    by (simp add: h r m s hms_string_def py_int_nonneg s0 pi)
qed


text \<open>
  C4 (amended). For every seconds value from 0 up to, but excluding, \<open>2 ^ 53\<close> the
  formatter returns \<open>HH:MM:SS,mmm\<close> with \<open>h = floor(seconds/3600)\<close>,
  \<open>m = floor((seconds mod 3600)/60)\<close>, \<open>s = floor(seconds mod 60)\<close>, each zero-padded to
  width 2, and \<open>ms\<close> the float product \<open>(seconds - floor(seconds)) * 1000\<close>, both
  operations in binary64, cut off towards zero (not rounded to the nearest integer),
  zero-padded to width 3. In
  particular \<open>ts(0) = "00:00:00,000"\<close> and \<open>ts(3661.5) = "01:01:01,500"\<close>.
\<close>

theorem ts_truncates:
  "(\<forall>x. 0 \<le> x \<and> x < 2 ^ 53 \<longrightarrow>
      ts x = Inr (hms_string \<lfloor>x / 3600\<rfloor> \<lfloor>rat_mod x 3600 / 60\<rfloor> \<lfloor>rat_mod x 60\<rfloor>
                    \<lfloor>fmul (fsub x (of_int \<lfloor>x\<rfloor>)) 1000\<rfloor>)) \<and>
   ts 0 = Inr (str ''00:00:00,000'') \<and>
   ts (7323 / 2) = Inr (str ''01:01:01,500'')"
proof (intro conjI allI impI)
  fix x :: rat
  assume "0 \<le> x \<and> x < 2 ^ 53"
  then show "ts x = Inr (hms_string \<lfloor>x / 3600\<rfloor> \<lfloor>rat_mod x 3600 / 60\<rfloor> \<lfloor>rat_mod x 60\<rfloor>
                    \<lfloor>fmul (fsub x (of_int \<lfloor>x\<rfloor>)) 1000\<rfloor>)"
    by (simp add: ts_nonneg)
next
  show "ts 0 = Inr (str ''00:00:00,000'')" by code_simp
next
  show "ts (7323 / 2) = Inr (str ''01:01:01,500'')" by code_simp
qed

theorem ts_truncates_witness:
  "(0::rat) \<le> 3 / 32 \<and> (3 / 32 :: rat) < 2 ^ 53 \<and> ts (3 / 32) = Inr (str ''00:00:00,093'')"
proof -
  have b: "(0::rat) \<le> 3 / 32 \<and> (3 / 32 :: rat) < 2 ^ 53" by simp
  have v: "hms_string \<lfloor>(3 / 32 :: rat) / 3600\<rfloor> \<lfloor>rat_mod (3 / 32) 3600 / 60\<rfloor> \<lfloor>rat_mod (3 / 32) 60\<rfloor>
             \<lfloor>fmul (fsub (3 / 32) (of_int \<lfloor>3 / 32 :: rat\<rfloor>)) 1000\<rfloor> = str ''00:00:00,093''"
    by code_simp
  from ts_truncates have "ts (3 / 32) = Inr (hms_string \<lfloor>(3 / 32 :: rat) / 3600\<rfloor>
      \<lfloor>rat_mod (3 / 32) 3600 / 60\<rfloor> \<lfloor>rat_mod (3 / 32) 60\<rfloor>
      \<lfloor>fmul (fsub (3 / 32) (of_int \<lfloor>3 / 32 :: rat\<rfloor>)) 1000\<rfloor>)"
    using b by blast
  then show ?thesis using b v by simp
qed

text \<open>
  C4 as stated fails: at \<open>seconds = 0.09375\<close>, a binary64 value on which every float
  operation of \<open>ts\<close> is exact, the code yields 93 milliseconds where rounding
  \<open>93.75\<close> yields 94.
\<close>

theorem ts_round_counterexample:
  "round64 (3 / 32) = 3 / 32 \<and> ts (3 / 32) = Inr (str ''00:00:00,093'') \<and>
   spec_format (3 / 32) = str ''00:00:00,094'' \<and> ts (3 / 32) \<noteq> Inr (spec_format (3 / 32))"
  by code_simp

text \<open>
  The bound matters: for much larger floats the quotient of CPython's float \<open>//\<close>
  is itself rounded, and the hours differ from \<open>floor(seconds/3600)\<close>.
\<close>

lemma ts_hours_beyond_range:
  "round64 9636550361161211904 = 9636550361161211904 \<and>
   ts 9636550361161211904 = Inr (str ''2676819544767002:18:24,000'') \<and>
   \<lfloor>(9636550361161211904 :: rat) / 3600\<rfloor> = 2676819544767003"
  by code_simp

subsection \<open>Plan allowances\<close>

text \<open>
  C3. The plan-to-allowance mapping is total: the free plan (stored as \<open>gratuito\<close>) has
  allowance 3, the creator plan (\<open>criador\<close>) 30, the pro plan (\<open>pro\<close>) 9999, and
  every other string has allowance 0.
\<close>

theorem limit_for_table:
  "limit_for (str ''gratuito'') = 3 \<and> limit_for (str ''criador'') = 30 \<and>
   limit_for (str ''pro'') = 9999 \<and>
   (\<forall>plan. plan \<noteq> str ''gratuito'' \<and> plan \<noteq> str ''criador'' \<and> plan \<noteq> str ''pro''
      \<longrightarrow> limit_for plan = 0)"
  by (simp add: limit_for_def plan_limits_def str_def)

theorem limit_for_table_witness:
  "str ''premium'' \<noteq> str ''gratuito'' \<and> str ''premium'' \<noteq> str ''criador'' \<and>
   str ''premium'' \<noteq> str ''pro'' \<and> limit_for (str ''premium'') = 0 \<and>
   limit_for (str ''gratuito'') = 3"
  using limit_for_table by (simp add: str_def)

subsection \<open>Caption track builder\<close>

lemma float_floor_div_total: "wx \<noteq> 0 \<Longrightarrow> \<exists>r. float_floor_div vx wx = Inr r"
  by (simp add: float_floor_div_def Let_def)

lemma float_rem_total: "wx \<noteq> 0 \<Longrightarrow> \<exists>r. float_rem vx wx = Inr r"
  by (simp add: float_rem_def Let_def)

lemma ts_total: "ts x = Inr (ts_str x)"
proof -
  obtain hq where h: "float_floor_div x 3600 = Inr hq"
    using float_floor_div_total[of 3600 x] by auto
  obtain r where r: "float_rem x 3600 = Inr r"
    using float_rem_total[of 3600 x] by auto
  obtain mq where m: "float_floor_div r 60 = Inr mq"
    using float_floor_div_total[of 60 r] by auto
  obtain sr where s: "float_rem x 60 = Inr sr"
    using float_rem_total[of 60 x] by auto
  have "\<exists>t. ts x = Inr t"
    by (simp add: ts_def Let_def h r m s)
  then show ?thesis by (auto simp: ts_str_def)
qed

lemma srt_loop_blocks:
  "srt_loop i segments f =
     Inr (f @ concat (map (\<lambda>(k, s). srt_block (i + int k) s) (enumerate 0 segments)))"
proof (induction segments arbitrary: i f)
  case Nil
  then show ?case by simp
next
  case (Cons s segments)
  have shift: "map (\<lambda>(k, s). srt_block (i + int k) s) (enumerate (Suc 0) segments) =
               map (\<lambda>(k, s). srt_block (i + 1 + int k) s) (enumerate 0 segments)"
    by (simp add: enumerate_Suc_eq split_def comp_def ac_simps)
  have step: "srt_loop i (s # segments) f = srt_loop (i + 1) segments (f @ srt_block i s)"
    by (simp add: ts_total Let_def srt_block_def)
  have "concat (map (\<lambda>(k, s). srt_block (i + int k) s) (enumerate 0 (s # segments))) =
        srt_block i s @ concat (map (\<lambda>(k, s). srt_block (i + int k) s) (enumerate (Suc 0) segments))"
    by simp
  then show ?case
    unfolding step Cons.IH shift by simp
qed

lemma strip_decomp:
  "\<exists>a b. s = a @ strip s @ b \<and> (\<forall>c\<in>set a. isspace c) \<and> (\<forall>c\<in>set b. isspace c)"
proof -
  define a where "a = takeWhile isspace s"
  define r where "r = dropWhile isspace s"
  define b where "b = rev (takeWhile isspace (rev r))"
  have "rev r = takeWhile isspace (rev r) @ dropWhile isspace (rev r)" by simp
  then have "r = rev (dropWhile isspace (rev r)) @ b"
    unfolding b_def by (metis rev_append rev_rev_ident)
  then have "s = a @ strip s @ b"
    unfolding strip_def a_def r_def[symmetric] by (metis takeWhile_dropWhile_id append_assoc r_def)
  moreover have "\<forall>c\<in>set a. isspace c" unfolding a_def by (meson set_takeWhileD)
  moreover have "\<forall>c\<in>set b. isspace c" unfolding b_def by (metis set_rev set_takeWhileD)
  ultimately show ?thesis by blast
qed

lemma strip_ends:
  "strip s = [] \<or> (\<not> isspace (hd (strip s)) \<and> \<not> isspace (last (strip s)))"
proof (cases "strip s = []")
  case True
  then show ?thesis by simp
next
  case False
  define r where "r = dropWhile isspace s"
  define q where "q = dropWhile isspace (rev r)"
  have st: "strip s = rev q" by (simp add: strip_def q_def r_def)
  with False have q: "q \<noteq> []" by simp
  then have "\<not> isspace (hd q)" unfolding q_def by (metis hd_dropWhile)
  then have l: "\<not> isspace (last (strip s))" using q by (simp add: st last_rev)
  have "rev r = takeWhile isspace (rev r) @ q" by (simp add: q_def)
  then have "r = rev q @ rev (takeWhile isspace (rev r))" by (metis rev_append rev_rev_ident)
  then have "hd r = hd (rev q)" using q by (metis hd_append2 rev_is_Nil_conv)
  moreover have "r \<noteq> []" using q q_def by auto
  then have "\<not> isspace (hd r)" unfolding r_def by (metis hd_dropWhile)
  ultimately show ?thesis using l st by simp
qed

lemma replace_nl_spec:
  "length (replace_nl t) = length t \<and> 10 \<notin> set (replace_nl t) \<and>
   (\<forall>k<length t. replace_nl t ! k = (if t ! k = 10 then 32 else t ! k))"
  by (auto simp: replace_nl_def)

lemma write_srt_doc:
  "write_srt fs0 segments srt_path =
     Inr (fs0(srt_path \<mapsto> concat (map (\<lambda>(k, s). srt_block (1 + int k) s) (enumerate 0 segments))))"
  by (simp add: write_srt_def srt_loop_blocks)

text \<open>
  C5. For every list of segments the track builder writes, for the segment at
  position \<open>k\<close> (ordinal \<open>k + 1\<close>), exactly the block \<open>srt_block\<close>: the ordinal, the
  line \<open><start> --> <end>\<close> of the two formatted timestamps, the text with leading and
  trailing whitespace removed and every line feed replaced by a space, and an empty
  line; the document is the concatenation of these blocks in order, and it is empty
  for the empty list. The formatter never raises, trimming removes exactly a
  whitespace prefix and suffix, and replacing keeps every other character.
\<close>

theorem write_srt_blocks:
  "write_srt fs0 segments srt_path =
     Inr (fs0(srt_path \<mapsto> concat (map (\<lambda>(k, s). srt_block (1 + int k) s) (enumerate 0 segments)))) \<and>
   write_srt fs0 [] srt_path = Inr (fs0(srt_path \<mapsto> [])) \<and>
   (\<forall>x. ts x = Inr (ts_str x)) \<and>
   (\<forall>t. \<exists>a b. t = a @ strip t @ b \<and> list_all isspace a \<and> list_all isspace b) \<and>
   (\<forall>t. strip t = [] \<or> (\<not> isspace (hd (strip t)) \<and> \<not> isspace (last (strip t)))) \<and>
   (\<forall>t. length (replace_nl t) = length t \<and>
        (\<forall>k<length t. replace_nl t ! k = (if t ! k = 10 then 32 else t ! k)))"
proof (intro conjI allI)
  show "write_srt fs0 segments srt_path =
     Inr (fs0(srt_path \<mapsto> concat (map (\<lambda>(k, s). srt_block (1 + int k) s) (enumerate 0 segments))))"
    by (rule write_srt_doc)
  show "write_srt fs0 [] srt_path = Inr (fs0(srt_path \<mapsto> []))"
    by (simp add: write_srt_def)
  show "ts x = Inr (ts_str x)" for x by (rule ts_total)
  show "\<exists>a b. t = a @ strip t @ b \<and> list_all isspace a \<and> list_all isspace b" for t
    using strip_decomp[of t] by (simp add: list_all_iff)
  show "strip t = [] \<or> (\<not> isspace (hd (strip t)) \<and> \<not> isspace (last (strip t)))" for t
    by (rule strip_ends)
  show "length (replace_nl t) = length t" for t
    using replace_nl_spec[of t] by simp
  show "k < length t \<longrightarrow> replace_nl t ! k = (if t ! k = 10 then 32 else t ! k)" for t k
    using replace_nl_spec[of t] by simp
qed

theorem write_srt_blocks_witness:
  "write_srt Map.empty
     [\<lparr>seg_start = 0, seg_end = 1, seg_text = [32] @ str ''a'' @ [10] @ str ''b'' @ [32, 10]\<rparr>,
      \<lparr>seg_start = 1, seg_end = 5 / 2, seg_text = str ''c''\<rparr>] (str ''t.srt'') =
   Inr [str ''t.srt'' \<mapsto>
     str ''1'' @ [10] @ str ''00:00:00,000 --> 00:00:01,000'' @ [10] @ str ''a b'' @ [10, 10] @
     str ''2'' @ [10] @ str ''00:00:01,000 --> 00:00:02,500'' @ [10] @ str ''c'' @ [10, 10]]"
proof -
  have "concat (map (\<lambda>(k, s). srt_block (1 + int k) s) (enumerate 0
     [\<lparr>seg_start = 0, seg_end = 1, seg_text = [32] @ str ''a'' @ [10] @ str ''b'' @ [32, 10]\<rparr>,
      \<lparr>seg_start = 1, seg_end = 5 / 2, seg_text = str ''c''\<rparr>])) =
     str ''1'' @ [10] @ str ''00:00:00,000 --> 00:00:01,000'' @ [10] @ str ''a b'' @ [10, 10] @
     str ''2'' @ [10] @ str ''00:00:01,000 --> 00:00:02,500'' @ [10] @ str ''c'' @ [10, 10]"
    by code_simp
  then show ?thesis
    using write_srt_blocks[of Map.empty "[\<lparr>seg_start = 0, seg_end = 1, seg_text = [32] @ str ''a'' @ [10] @ str ''b'' @ [32, 10]\<rparr>,
      \<lparr>seg_start = 1, seg_end = 5 / 2, seg_text = str ''c''\<rparr>]" "str ''t.srt''"]
    by simp
qed

text \<open>
  C6 (amended). The track builder has no check of \<open>end \<ge> start\<close>: for every list
  with a segment whose end lies before its start, it completes without an error and
  the document contains that segment's block, with both timestamps as given.
\<close>

theorem write_srt_no_guard:
  "k < length segments \<and> seg_end (segments ! k) < seg_start (segments ! k) \<longrightarrow>
   (\<exists>pre post. write_srt fs0 segments srt_path =
      Inr (fs0(srt_path \<mapsto> pre @ srt_block (1 + int k) (segments ! k) @ post)))"
proof
  assume a: "k < length segments \<and> seg_end (segments ! k) < seg_start (segments ! k)"
  define es where "es = enumerate 0 segments"
  define g where "g = (\<lambda>(k, s). srt_block (1 + int k) s)"
  have k: "k < length es" using a by (simp add: es_def)
  have nth: "es ! k = (k, segments ! k)" using a by (simp add: es_def nth_enumerate_eq)
  have "es = take k es @ es ! k # drop (Suc k) es" using k by (rule id_take_nth_drop)
  then have "concat (map g es) =
      concat (map g (take k es)) @ g (es ! k) @ concat (map g (drop (Suc k) es))"
    by (metis concat.simps(2) concat_append list.simps(9) map_append)
  then have "concat (map g es) =
      concat (map g (take k es)) @ srt_block (1 + int k) (segments ! k) @
      concat (map g (drop (Suc k) es))"
    by (simp add: nth g_def)
  then show "\<exists>pre post. write_srt fs0 segments srt_path =
      Inr (fs0(srt_path \<mapsto> pre @ srt_block (1 + int k) (segments ! k) @ post))"
    unfolding write_srt_doc es_def[symmetric] g_def[symmetric] by auto
qed

theorem write_srt_no_guard_witness:
  "\<exists>pre post. write_srt Map.empty [\<lparr>seg_start = 2, seg_end = 1, seg_text = str ''x''\<rparr>] (str ''t.srt'') =
     Inr [str ''t.srt'' \<mapsto> pre @ srt_block 1 \<lparr>seg_start = 2, seg_end = 1, seg_text = str ''x''\<rparr> @ post]"
  using write_srt_no_guard[of 0 "[\<lparr>seg_start = 2, seg_end = 1, seg_text = str ''x''\<rparr>]" Map.empty "str ''t.srt''"]
  by simp

text \<open>
  C6 as stated fails: a segment from second 2 to second 1 is written, not rejected.
\<close>

theorem write_srt_negative_duration_counterexample:
  "seg_end \<lparr>seg_start = 2, seg_end = 1, seg_text = str ''x''\<rparr> <
     seg_start \<lparr>seg_start = 2, seg_end = 1, seg_text = str ''x''\<rparr> \<and>
   write_srt Map.empty [\<lparr>seg_start = 2, seg_end = 1, seg_text = str ''x''\<rparr>] (str ''t.srt'') =
     Inr [str ''t.srt'' \<mapsto>
       str ''1'' @ [10] @ str ''00:00:02,000 --> 00:00:01,000'' @ [10] @ str ''x'' @ [10, 10]]"
proof -
  have "srt_loop 1 [\<lparr>seg_start = 2, seg_end = 1, seg_text = str ''x''\<rparr>] [] =
     Inr (str ''1'' @ [10] @ str ''00:00:02,000 --> 00:00:01,000'' @ [10] @ str ''x'' @ [10, 10])"
    by code_simp
  then show ?thesis by (simp add: write_srt_def)
qed

subsection \<open>Payment webhook\<close>

text \<open>
  C9 (amended). For every webhook request handled with the billing integration
  configured, whose signature verifies and whose event type is not
  \<open>checkout.session.completed\<close>, the handler changes nothing in the state and answers
  200 with the body \<open>{"status": "ok"}\<close>.
\<close>

theorem webhook_unrecognized_ok:
  "STRIPE_WEBHOOK_SECRET e = Some secret \<and> secret \<noteq> [] \<and> supabase w = Some d \<and>
   construct_event e payload sig secret = Some ev \<and>
   ev_type ev \<noteq> str ''checkout.session.completed'' \<longrightarrow>
   stripe_webhook e w payload sig = (Inr [(str ''status'', str ''ok'')], w)"
  by (simp add: stripe_webhook_def)

theorem webhook_unrecognized_ok_witness:
  "stripe_webhook env_ok w_empty [] None = (Inr [(str ''status'', str ''ok'')], w_empty)"
  using webhook_unrecognized_ok[of env_ok "str ''whsec''" w_empty "\<lparr>usuarios = [], usos = []\<rparr>" "[]" None
      "\<lparr>ev_type = str ''invoice.paid'', ev_email = Missing\<rparr>"]
  by (simp add: env_ok_def w_empty_def str_def)

text \<open>
  C9 as stated fails: a verified \<open>invoice.paid\<close> event is answered with
  \<open>{"status": "ok"}\<close>, not \<open>{"status": "ignored"}\<close>.
\<close>

theorem webhook_ignored_counterexample:
  "STRIPE_WEBHOOK_SECRET env_ok = Some (str ''whsec'') \<and>
   construct_event env_ok [] None (str ''whsec'') = Some \<lparr>ev_type = str ''invoice.paid'', ev_email = Missing\<rparr> \<and>
   str ''invoice.paid'' \<noteq> str ''checkout.session.completed'' \<and>
   fst (stripe_webhook env_ok w_empty [] None) = Inr [(str ''status'', str ''ok'')] \<and>
   fst (stripe_webhook env_ok w_empty [] None) \<noteq> Inr [(str ''status'', str ''ignored'')]"
  by (simp add: stripe_webhook_def env_ok_def w_empty_def str_def)

subsection \<open>Output path of the renderer\<close>

lemma split_on_no_sep: "c \<in> set (split_on sep s) \<Longrightarrow> sep \<notin> set c"
proof (induction s arbitrary: c)
  case Nil
  then show ?case by simp
next
  case (Cons a s)
  then show ?case
    by (cases "split_on sep s") (auto split: if_splits)
qed

lemma split_on_id: "sep \<notin> set s \<Longrightarrow> split_on sep s = [s]"
  by (induction s) auto

lemma split_on_app: "sep \<notin> set a \<Longrightarrow> split_on sep (a @ sep # b) = a # split_on sep b"
  by (induction a) auto

lemma path_name_no_sep: "47 \<notin> set (path_name (Path p))"
proof (cases "snd (Path p) = []")
  case True
  then show ?thesis by (simp add: path_name_def)
next
  case False
  then have "last (snd (Path p)) \<in> set (snd (Path p))" by simp
  then have "last (snd (Path p)) \<in> set (split_on 47 p)" by (simp add: Path_def)
  then show ?thesis using False by (simp add: path_name_def split_on_no_sep)
qed

lemma path_stem_no_sep: "47 \<notin> set (path_stem (Path p))"
  using path_name_no_sep[of p]
  by (auto simp: path_stem_def Let_def dest: in_set_takeD)

lemma path_stem_suffix: "path_stem q @ path_suffix q = path_name q"
  by (simp add: path_stem_def path_suffix_def Let_def)

lemma final_name_ok:
  assumes "47 \<notin> set stem"
  shows "with_name q (stem @ str ''_final.mp4'') =
     (if path_name q = [] then Inl ValueError
      else Inr (fst q, butlast (snd q) @ [stem @ str ''_final.mp4'']))"
proof -
  define name where "name = stem @ str ''_final.mp4''"
  have n: "47 \<notin> set name" using assms by (simp add: name_def str_def)
  have l: "last name = 52" by (simp add: name_def str_def)
  have ne: "name \<noteq> []" "name \<noteq> [46]" by (simp_all add: name_def str_def)
  have "take 1 name \<noteq> [47]" using n ne by (cases name) auto
  then have r: "fst (Path name) = []" by (simp add: Path_def)
  have "snd (Path name) = [name]" using ne by (simp add: Path_def split_on_id[OF n])
  then show ?thesis
    unfolding name_def[symmetric] by (simp add: with_name_def r l ne)
qed

text \<open>
  C8 (amended). For every input video path with a final component, the output path
  of the renderer is the input path with its final component replaced by the stem
  followed by \<open>_final.mp4\<close>, whatever the input's extension; it has the form
  \<open><stem>_final<ext>\<close> when the extension is \<open>.mp4\<close>. A path without a final
  component raises \<open>ValueError\<close>.
\<close>

theorem out_path_final_mp4:
  "(path_name (Path video_path) \<noteq> [] \<longrightarrow>
      out_path_of video_path =
        Inr (path_str (fst (Path video_path),
               butlast (snd (Path video_path)) @ [path_stem (Path video_path) @ str ''_final.mp4''])) \<and>
      (path_suffix (Path video_path) = str ''.mp4'' \<longrightarrow>
         path_stem (Path video_path) @ str ''_final.mp4'' =
         path_stem (Path video_path) @ str ''_final'' @ path_suffix (Path video_path))) \<and>
   (path_name (Path video_path) = [] \<longrightarrow> out_path_of video_path = Inl ValueError)"
proof -
  have sfx: "str ''_final.mp4'' = str ''_final'' @ str ''.mp4''" by (simp add: str_def)
  have main: "out_path_of video_path =
     (if path_name (Path video_path) = [] then Inl ValueError
      else Inr (path_str (fst (Path video_path),
               butlast (snd (Path video_path)) @ [path_stem (Path video_path) @ str ''_final.mp4''])))"
    by (simp add: out_path_of_def Let_def final_name_ok[OF path_stem_no_sep])
  show ?thesis
    unfolding main by (simp add: sfx)
qed

theorem out_path_final_mp4_witness:
  "path_name (Path (str ''temp/job.mp4'')) \<noteq> [] \<and>
   path_suffix (Path (str ''temp/job.mp4'')) = str ''.mp4'' \<and>
   out_path_of (str ''temp/job.mp4'') = Inr (str ''temp/job_final.mp4'') \<and>
   path_name (Path (str ''/'')) = [] \<and> out_path_of (str ''/'') = Inl ValueError"
proof -
  have a: "path_name (Path (str ''temp/job.mp4'')) \<noteq> []" by code_simp
  have b: "path_suffix (Path (str ''temp/job.mp4'')) = str ''.mp4''" by code_simp
  have c: "path_str (fst (Path (str ''temp/job.mp4'')),
               butlast (snd (Path (str ''temp/job.mp4''))) @
               [path_stem (Path (str ''temp/job.mp4'')) @ str ''_final.mp4'']) =
           str ''temp/job_final.mp4''" by code_simp
  have d: "path_name (Path (str ''/'')) = []" by code_simp
  show ?thesis
    using out_path_final_mp4[of "str ''temp/job.mp4''"] out_path_final_mp4[of "str ''/''"] a b c d
    by simp
qed

text \<open>
  C8 as stated fails: for \<open>clip.mov\<close> the extension \<open>.mov\<close> is not kept.
\<close>

theorem out_path_extension_counterexample:
  "out_path_of (str ''clip.mov'') = Inr (str ''clip_final.mp4'') \<and>
   path_stem (Path (str ''clip.mov'')) @ str ''_final'' @ path_suffix (Path (str ''clip.mov'')) =
     str ''clip_final.mov'' \<and>
   out_path_of (str ''clip.mov'') \<noteq>
     Inr (path_stem (Path (str ''clip.mov'')) @ str ''_final'' @ path_suffix (Path (str ''clip.mov'')))"
  by code_simp

subsection \<open>Caption renderer\<close>

lemma run_ffmpeg_ok:
  "fst (ffmpeg e argv) = 0 \<Longrightarrow>
   run_ffmpeg e w argv out = (Inr (), w\<lparr>calls := calls w @ [Ffmpeg argv],
     files := leave_output e argv out (files w)\<rparr>)"
  by (simp add: run_ffmpeg_def Let_def)

lemma run_ffmpeg_fail:
  "fst (ffmpeg e argv) \<noteq> 0 \<Longrightarrow>
   run_ffmpeg e w argv out =
     (Inl (CalledProcessError (fst (ffmpeg e argv))), w\<lparr>calls := calls w @ [Ffmpeg argv],
        files := leave_output e argv out (files w)\<rparr>)"
  by (simp add: run_ffmpeg_def Let_def)

lemma burn_subs_cases:
  assumes "out_path_of video_path = Inr out_path" "files w srt_path \<noteq> None"
  defines "vp \<equiv> path_str (Path video_path)"
    and "sp \<equiv> path_str (Path srt_path)"
    and "op \<equiv> path_str (Path out_path)"
  defines "styled \<equiv> burn_cmd vp (styled_filter sp) op"
    and "plain \<equiv> burn_cmd vp (plain_filter sp) op"
  shows "fst (ffmpeg e styled) = 0 \<Longrightarrow>
           fst (burn_subs e w video_path srt_path) = Inr out_path \<and> calls (snd (burn_subs e w video_path srt_path)) = calls w @ [Ffmpeg styled] \<and>
           supabase (snd (burn_subs e w video_path srt_path)) = supabase w \<and>
           files (snd (burn_subs e w video_path srt_path)) = leave_output e styled op (files w)"
    and "fst (ffmpeg e styled) \<noteq> 0 \<Longrightarrow> fst (ffmpeg e plain) = 0 \<Longrightarrow>
           fst (burn_subs e w video_path srt_path) = Inr out_path \<and> calls (snd (burn_subs e w video_path srt_path)) = calls w @ [Ffmpeg styled, Ffmpeg plain] \<and>
           supabase (snd (burn_subs e w video_path srt_path)) = supabase w \<and>
           files (snd (burn_subs e w video_path srt_path)) = leave_output e plain op (leave_output e styled op (files w))"
    and "fst (ffmpeg e styled) \<noteq> 0 \<Longrightarrow> fst (ffmpeg e plain) \<noteq> 0 \<Longrightarrow>
           fst (burn_subs e w video_path srt_path) = Inl (CalledProcessError (fst (ffmpeg e plain))) \<and>
           calls (snd (burn_subs e w video_path srt_path)) = calls w @ [Ffmpeg styled, Ffmpeg plain] \<and>
           supabase (snd (burn_subs e w video_path srt_path)) = supabase w"
  using assms(1,2)
  by (simp_all add: burn_subs_def Let_def run_ffmpeg_ok run_ffmpeg_fail
      vp_def sp_def op_def styled_def plain_def)

lemma burn_subs_no_call:
  "out_path_of video_path = Inl err \<or> files w srt_path = None \<Longrightarrow>
   snd (burn_subs e w video_path srt_path) = w \<and>
   (\<exists>err'. fst (burn_subs e w video_path srt_path) = Inl err')"
  by (auto simp: burn_subs_def Let_def split: sum.splits)


text \<open>
  C7. The renderer calls the external transcoder at most twice per call. With the
  caption track present: when the styled invocation exits with status 0 it is the
  only invocation; when it exits non-zero, exactly one more invocation follows, with
  the same subtitle filter without the style parameters, and its success is the
  renderer's success; when both exit non-zero the call raises the error of the
  second and nothing further is invoked.
\<close>

theorem burn_subs_two_attempts:
  "(\<exists>cs. calls (snd (burn_subs e w video_path srt_path)) = calls w @ cs \<and> length cs \<le> 2) \<and>
   (out_path_of video_path = Inr out_path \<and> files w srt_path \<noteq> None \<longrightarrow>
      (let vp = path_str (Path video_path);
           sp = path_str (Path srt_path);
           op = path_str (Path out_path);
           styled = burn_cmd vp (styled_filter sp) op;
           plain = burn_cmd vp (plain_filter sp) op;
           r = burn_subs e w video_path srt_path
       in styled_filter sp = plain_filter sp @ force_style \<and>
          (fst (ffmpeg e styled) = 0 \<longrightarrow>
             fst r = Inr out_path \<and> calls (snd r) = calls w @ [Ffmpeg styled]) \<and>
          (fst (ffmpeg e styled) \<noteq> 0 \<and> fst (ffmpeg e plain) = 0 \<longrightarrow>
             fst r = Inr out_path \<and> calls (snd r) = calls w @ [Ffmpeg styled, Ffmpeg plain]) \<and>
          (fst (ffmpeg e styled) \<noteq> 0 \<and> fst (ffmpeg e plain) \<noteq> 0 \<longrightarrow>
             fst r = Inl (CalledProcessError (fst (ffmpeg e plain))) \<and>
             calls (snd r) = calls w @ [Ffmpeg styled, Ffmpeg plain])))"
proof
  define vp where "vp = path_str (Path video_path)"
  define sp where "sp = path_str (Path srt_path)"
  show "\<exists>cs. calls (snd (burn_subs e w video_path srt_path)) = calls w @ cs \<and> length cs \<le> 2"
  proof (cases "out_path_of video_path")
    case (Inl err)
    then have "snd (burn_subs e w video_path srt_path) = w"
      using burn_subs_no_call[of video_path err w srt_path e] by simp
    then show ?thesis by simp
  next
    case (Inr out)
    define op where "op = path_str (Path out)"
    show ?thesis
    proof (cases "files w srt_path = None")
      case True
      then have "snd (burn_subs e w video_path srt_path) = w"
        using burn_subs_no_call[of video_path undefined w srt_path e] by simp
      then show ?thesis by simp
    next
      case False
      note c = burn_subs_cases[OF Inr False, of e, folded vp_def sp_def op_def]
      show ?thesis
      proof (cases "fst (ffmpeg e (burn_cmd vp (styled_filter sp) op)) = 0")
        case True
        then show ?thesis using c(1) by simp
      next
        case nz: False
        show ?thesis
        proof (cases "fst (ffmpeg e (burn_cmd vp (plain_filter sp) op)) = 0")
          case True
          then show ?thesis using c(2) nz by simp
        next
          case False
          then show ?thesis using c(3) nz by simp
        qed
      qed
    qed
  qed
next
  show "out_path_of video_path = Inr out_path \<and> files w srt_path \<noteq> None \<longrightarrow>
      (let vp = path_str (Path video_path);
           sp = path_str (Path srt_path);
           op = path_str (Path out_path);
           styled = burn_cmd vp (styled_filter sp) op;
           plain = burn_cmd vp (plain_filter sp) op;
           r = burn_subs e w video_path srt_path
       in styled_filter sp = plain_filter sp @ force_style \<and>
          (fst (ffmpeg e styled) = 0 \<longrightarrow>
             fst r = Inr out_path \<and> calls (snd r) = calls w @ [Ffmpeg styled]) \<and>
          (fst (ffmpeg e styled) \<noteq> 0 \<and> fst (ffmpeg e plain) = 0 \<longrightarrow>
             fst r = Inr out_path \<and> calls (snd r) = calls w @ [Ffmpeg styled, Ffmpeg plain]) \<and>
          (fst (ffmpeg e styled) \<noteq> 0 \<and> fst (ffmpeg e plain) \<noteq> 0 \<longrightarrow>
             fst r = Inl (CalledProcessError (fst (ffmpeg e plain))) \<and>
             calls (snd r) = calls w @ [Ffmpeg styled, Ffmpeg plain]))"
  proof
    assume a: "out_path_of video_path = Inr out_path \<and> files w srt_path \<noteq> None"
    then have o: "out_path_of video_path = Inr out_path" and f: "files w srt_path \<noteq> None"
      by simp_all
    note c = burn_subs_cases[OF o f, of e]
    show "let vp = path_str (Path video_path);
           sp = path_str (Path srt_path);
           op = path_str (Path out_path);
           styled = burn_cmd vp (styled_filter sp) op;
           plain = burn_cmd vp (plain_filter sp) op;
           r = burn_subs e w video_path srt_path
       in styled_filter sp = plain_filter sp @ force_style \<and>
          (fst (ffmpeg e styled) = 0 \<longrightarrow>
             fst r = Inr out_path \<and> calls (snd r) = calls w @ [Ffmpeg styled]) \<and>
          (fst (ffmpeg e styled) \<noteq> 0 \<and> fst (ffmpeg e plain) = 0 \<longrightarrow>
             fst r = Inr out_path \<and> calls (snd r) = calls w @ [Ffmpeg styled, Ffmpeg plain]) \<and>
          (fst (ffmpeg e styled) \<noteq> 0 \<and> fst (ffmpeg e plain) \<noteq> 0 \<longrightarrow>
             fst r = Inl (CalledProcessError (fst (ffmpeg e plain))) \<and>
             calls (snd r) = calls w @ [Ffmpeg styled, Ffmpeg plain])"
      unfolding Let_def
      using c by (simp add: styled_filter_def plain_filter_def)
  qed
qed

theorem burn_subs_two_attempts_witness:
  "fst (burn_subs env_ok w_srt (str ''temp/job.mp4'') (str ''temp/job.srt'')) =
     Inr (str ''temp/job_final.mp4'') \<and>
   calls (snd (burn_subs env_ok w_srt (str ''temp/job.mp4'') (str ''temp/job.srt''))) =
     [Ffmpeg (burn_cmd (str ''temp/job.mp4'') (styled_filter (str ''temp/job.srt''))
        (str ''temp/job_final.mp4''))] \<and>
   fst (burn_subs env_style_fails w_srt (str ''temp/job.mp4'') (str ''temp/job.srt'')) =
     Inr (str ''temp/job_final.mp4'') \<and>
   calls (snd (burn_subs env_style_fails w_srt (str ''temp/job.mp4'') (str ''temp/job.srt''))) =
     [Ffmpeg (burn_cmd (str ''temp/job.mp4'') (styled_filter (str ''temp/job.srt''))
        (str ''temp/job_final.mp4'')),
      Ffmpeg (burn_cmd (str ''temp/job.mp4'') (plain_filter (str ''temp/job.srt''))
        (str ''temp/job_final.mp4''))] \<and>
   fst (burn_subs env_fails w_srt (str ''temp/job.mp4'') (str ''temp/job.srt'')) =
     Inl (CalledProcessError 1) \<and>
   calls (snd (burn_subs env_fails w_srt (str ''temp/job.mp4'') (str ''temp/job.srt''))) =
     [Ffmpeg (burn_cmd (str ''temp/job.mp4'') (styled_filter (str ''temp/job.srt''))
        (str ''temp/job_final.mp4'')),
      Ffmpeg (burn_cmd (str ''temp/job.mp4'') (plain_filter (str ''temp/job.srt''))
        (str ''temp/job_final.mp4''))]"
proof -
  have o: "out_path_of (str ''temp/job.mp4'') = Inr (str ''temp/job_final.mp4'')" by code_simp
  have p: "path_str (Path (str ''temp/job.mp4'')) = str ''temp/job.mp4''"
    "path_str (Path (str ''temp/job.srt'')) = str ''temp/job.srt''"
    "path_str (Path (str ''temp/job_final.mp4'')) = str ''temp/job_final.mp4''"
    by code_simp+
  have f: "files w_srt (str ''temp/job.srt'') \<noteq> None" "calls w_srt = []"
    by (simp_all add: w_srt_def)
  have ne: "burn_cmd (str ''temp/job.mp4'') (plain_filter (str ''temp/job.srt''))
              (str ''temp/job_final.mp4'') \<noteq>
            burn_cmd (str ''temp/job.mp4'') (styled_filter (str ''temp/job.srt''))
              (str ''temp/job_final.mp4'')"
    by (simp add: burn_cmd_def plain_filter_def styled_filter_def force_style_def)
  have e1: "fst (ffmpeg env_ok c) = 0" for c by (simp add: env_ok_def)
  have e2: "fst (ffmpeg env_style_fails (burn_cmd (str ''temp/job.mp4'')
              (styled_filter (str ''temp/job.srt'')) (str ''temp/job_final.mp4''))) = 1"
    "fst (ffmpeg env_style_fails (burn_cmd (str ''temp/job.mp4'')
              (plain_filter (str ''temp/job.srt'')) (str ''temp/job_final.mp4''))) = 0"
    using ne by (simp_all add: env_style_fails_def env_ok_def)
  have e3: "fst (ffmpeg env_fails c) = 1" for c by (simp add: env_fails_def env_ok_def)
  have sf: "styled_filter x = plain_filter x @ force_style" for x
    by (simp add: styled_filter_def plain_filter_def)
  show ?thesis
    using burn_subs_two_attempts[of env_ok w_srt "str ''temp/job.mp4''" "str ''temp/job.srt''"
        "str ''temp/job_final.mp4''"]
      burn_subs_two_attempts[of env_style_fails w_srt "str ''temp/job.mp4''" "str ''temp/job.srt''"
        "str ''temp/job_final.mp4''"]
      burn_subs_two_attempts[of env_fails w_srt "str ''temp/job.mp4''" "str ''temp/job.srt''"
        "str ''temp/job_final.mp4''"]
    by (simp add: o p f e1 e2[unfolded sf] e3 sf Let_def)
qed

subsection \<open>Parsing a printed path\<close>

lemma join_slash_parts:
  assumes "\<forall>c\<in>set ps. c \<noteq> [] \<and> c \<noteq> [46] \<and> 47 \<notin> set c"
  shows "filter (\<lambda>c. c \<noteq> [] \<and> c \<noteq> [46]) (split_on 47 (join_slash ps)) = ps"
  using assms
proof (induction ps rule: join_slash.induct)
  case 1
  then show ?case by simp
next
  case (2 x)
  then show ?case by (simp add: split_on_id)
next
  case (3 x y ys)
  then have "split_on 47 (x @ 47 # join_slash (y # ys)) = x # split_on 47 (join_slash (y # ys))"
    by (intro split_on_app) simp
  then show ?case using 3 by simp
qed

lemma join_slash_hd:
  assumes "ps \<noteq> []" "\<forall>c\<in>set ps. c \<noteq> [] \<and> c \<noteq> [46] \<and> 47 \<notin> set c"
  shows "\<exists>c cs. join_slash ps = c # cs \<and> c \<noteq> 47"
proof -
  obtain x xs where ps: "ps = x # xs" using assms(1) by (cases ps) auto
  then obtain c cs where x: "x = c # cs" "c \<noteq> 47" using assms(2) by (cases x) auto
  show ?thesis
    unfolding ps x by (cases xs) (use x(2) in auto)
qed

lemma Path_path_str:
  assumes "r = [] \<or> r = [47] \<or> r = [47, 47]"
    and "\<forall>c\<in>set ps. c \<noteq> [] \<and> c \<noteq> [46] \<and> 47 \<notin> set c"
  shows "Path (path_str (r, ps)) = (r, ps)"
proof (cases "ps = []")
  case True
  then show ?thesis using assms(1) by (auto simp: Path_def path_str_def)
next
  case False
  obtain c cs where j: "join_slash ps = c # cs" "c \<noteq> 47"
    using join_slash_hd[OF False assms(2)] by auto
  have parts: "filter (\<lambda>c. c \<noteq> [] \<and> c \<noteq> [46]) (split_on 47 (c # cs)) = ps"
    using join_slash_parts[OF assms(2)] unfolding j .
  from assms(1) show ?thesis
  proof (elim disjE)
    assume "r = []"
    then show ?thesis using False j(2) parts by (simp add: Path_def path_str_def j(1))
  next
    assume "r = [47]"
    then show ?thesis using False j(2) parts by (simp add: Path_def path_str_def j(1))
  next
    assume "r = [47, 47]"
    then show ?thesis using False j(2) parts by (simp add: Path_def path_str_def j(1))
  qed
qed

lemma Path_valid:
  "(fst (Path p) = [] \<or> fst (Path p) = [47] \<or> fst (Path p) = [47, 47]) \<and>
   (\<forall>c\<in>set (snd (Path p)). c \<noteq> [] \<and> c \<noteq> [46] \<and> 47 \<notin> set c)"
  by (auto simp: Path_def dest: split_on_no_sep)

lemma out_path_of_eq:
  "out_path_of video_path =
     (if path_name (Path video_path) = [] then Inl ValueError
      else Inr (path_str (fst (Path video_path),
               butlast (snd (Path video_path)) @ [path_stem (Path video_path) @ str ''_final.mp4''])))"
  by (simp add: out_path_of_def Let_def final_name_ok[OF path_stem_no_sep])

lemma out_path_roundtrip:
  assumes "out_path_of v = Inr out"
  shows "path_str (Path out) = out"
proof -
  define name where "name = path_stem (Path v) @ str ''_final.mp4''"
  define ps where "ps = butlast (snd (Path v)) @ [name]"
  have out: "out = path_str (fst (Path v), ps)"
    using assms by (simp add: out_path_of_eq ps_def name_def split: if_splits)
  have "47 \<notin> set name" using path_stem_no_sep[of v] by (simp add: name_def str_def)
  moreover have "name \<noteq> []" "name \<noteq> [46]" by (simp_all add: name_def str_def)
  moreover have "\<forall>c\<in>set (butlast (snd (Path v))). c \<noteq> [] \<and> c \<noteq> [46] \<and> 47 \<notin> set c"
    using Path_valid[of v] by (meson in_set_butlastD)
  ultimately have "\<forall>c\<in>set ps. c \<noteq> [] \<and> c \<noteq> [46] \<and> 47 \<notin> set c"
    by (auto simp: ps_def)
  then have "Path (path_str (fst (Path v), ps)) = (fst (Path v), ps)"
    using Path_valid[of v] by (intro Path_path_str) auto
  then show ?thesis by (simp add: out)
qed

subsection \<open>Plan resolver\<close>

lemma get_or_create_user_keeps:
  "files (snd (get_or_create_user w email)) = files w \<and>
   calls (snd (get_or_create_user w email)) = calls w \<and>
   map_option usos (supabase (snd (get_or_create_user w email))) = map_option usos (supabase w)"
  by (simp add: get_or_create_user_def split: option.splits list.splits)

lemma count_after_get_or_create:
  "count_uses_this_month e (snd (get_or_create_user w email)) a = count_uses_this_month e w a"
  by (simp add: get_or_create_user_def count_uses_this_month_def split_def
      split: option.splits list.splits)

subsection \<open>Stages of the pipeline\<close>

lemma burn_subs_store: "supabase (snd (burn_subs e w v s)) = supabase w"
proof (cases "out_path_of v")
  case (Inl err)
  then show ?thesis using burn_subs_no_call[of v err w s e] by simp
next
  case (Inr out)
  show ?thesis
  proof (cases "files w s = None")
    case True
    then show ?thesis using burn_subs_no_call[of v undefined w s e] by simp
  next
    case False
    note c = burn_subs_cases[OF Inr False, of e]
    show ?thesis
    proof (cases "fst (ffmpeg e (burn_cmd (path_str (Path v)) (styled_filter (path_str (Path s)))
                     (path_str (Path out)))) = 0")
      case True
      then show ?thesis using c(1) by simp
    next
      case nz: False
      show ?thesis
      proof (cases "fst (ffmpeg e (burn_cmd (path_str (Path v)) (plain_filter (path_str (Path s)))
                     (path_str (Path out)))) = 0")
        case True
        then show ?thesis using c(2) nz by simp
      next
        case False
        then show ?thesis using c(3) nz by simp
      qed
    qed
  qed
qed

lemma extract_audio_cases:
  defines "a v \<equiv> rsplit_dot_head v @ str ''.mp3''"
  shows "fst (ffmpeg e (extract_cmd v (a v))) = 0 \<Longrightarrow>
           extract_audio e w v =
             (Inr (a v), w\<lparr>calls := calls w @ [Ffmpeg (extract_cmd v (a v))],
                files := leave_output e (extract_cmd v (a v)) (a v) (files w)\<rparr>)"
    and "fst (ffmpeg e (extract_cmd v (a v))) \<noteq> 0 \<Longrightarrow>
           extract_audio e w v =
             (Inl (CalledProcessError (fst (ffmpeg e (extract_cmd v (a v))))),
              w\<lparr>calls := calls w @ [Ffmpeg (extract_cmd v (a v))],
                files := leave_output e (extract_cmd v (a v)) (a v) (files w)\<rparr>)"
  by (simp_all add: extract_audio_def Let_def run_ffmpeg_ok run_ffmpeg_fail a_def)

lemma add_use_files: "files (add_use e w email v p) = files w"
  by (simp add: add_use_def split: option.splits)

lemma burn_subs_error:
  assumes "fst (burn_subs e w v s) = Inl err"
  shows "(\<forall>c m. err \<noteq> HTTPException c m) \<and> (\<forall>p. err \<noteq> FileNotFoundError p)"
proof (cases "out_path_of v")
  case (Inl err')
  then have "err' = ValueError" by (simp add: out_path_of_eq split: if_splits)
  then show ?thesis using Inl assms by (simp add: burn_subs_def)
next
  case (Inr out)
  show ?thesis
  proof (cases "files w s = None")
    case True
    then show ?thesis using Inr assms by (auto simp: burn_subs_def Let_def)
  next
    case False
    note c = burn_subs_cases[OF Inr False, of e]
    show ?thesis
    proof (cases "fst (ffmpeg e (burn_cmd (path_str (Path v)) (styled_filter (path_str (Path s)))
                     (path_str (Path out)))) = 0")
      case True
      then show ?thesis using c(1) assms by simp
    next
      case nz: False
      show ?thesis
      proof (cases "fst (ffmpeg e (burn_cmd (path_str (Path v)) (plain_filter (path_str (Path s)))
                     (path_str (Path out)))) = 0")
        case True
        then show ?thesis using c(2) nz assms by simp
      next
        case False
        then show ?thesis using c(3) nz assms by auto
      qed
    qed
  qed
qed

lemma pipeline_outcome:
  "(\<exists>resp. fst (pipeline e w1 file email plan) = Inr resp \<and>
          supabase (snd (pipeline e w1 file email plan)) =
            supabase (add_use e w1 email (basename (join_temp (uuid4 e @ str ''.mp4''))) plan)) \<or>
   (\<exists>p. fst (pipeline e w1 file email plan) = Inl (FileNotFoundError p) \<and>
          supabase (snd (pipeline e w1 file email plan)) =
            supabase (add_use e w1 email (basename (join_temp (uuid4 e @ str ''.mp4''))) plan)) \<or>
   (\<exists>err. fst (pipeline e w1 file email plan) = Inl err \<and>
          supabase (snd (pipeline e w1 file email plan)) = supabase w1 \<and>
          (\<forall>c m. err \<noteq> HTTPException c m) \<and> (\<forall>p. err \<noteq> FileNotFoundError p))"
proof -
  define v where "v = join_temp (uuid4 e @ str ''.mp4'')"
  define w2 where "w2 = w1\<lparr>files := (files w1)(v \<mapsto> file)\<rparr>"
  define a where "a = rsplit_dot_head v @ str ''.mp3''"
  define s where "s = rsplit_dot_head v @ str ''.srt''"
  have save: "save_temp_file e w1 file (str ''.mp4'') = (v, w2)"
    by (simp add: save_temp_file_def Let_def v_def w2_def)
  have st2: "supabase w2 = supabase w1" by (simp add: w2_def)
  show ?thesis
  proof (cases "fst (ffmpeg e (extract_cmd v a)) = 0")
    case False
    then show ?thesis
      using extract_audio_cases(2)[of e v w2] st2
      by (simp add: pipeline_def save a_def)
  next
    case True
    define w3 where "w3 = w2\<lparr>calls := calls w2 @ [Ffmpeg (extract_cmd v a)],
                files := leave_output e (extract_cmd v a) a (files w2)\<rparr>"
    have ex: "extract_audio e w2 v = (Inr a, w3)"
      using extract_audio_cases(1)[of e v w2] True by (simp add: a_def w3_def)
    have st3: "supabase w3 = supabase w1" using st2 by (simp add: w3_def)
    show ?thesis
    proof (cases "whisper e a")
      case None
      then show ?thesis
        using st3 by (simp add: pipeline_def save ex transcribe_segments_def)
    next
      case (Some segs)
      define w4 where "w4 = w3\<lparr>calls := calls w3 @ [Whisper a]\<rparr>"
      have tr: "transcribe_segments e w3 a = (Inr segs, w4)"
        using Some by (simp add: transcribe_segments_def w4_def)
      obtain fs5 where wr: "write_srt (files w4) segs s = Inr fs5"
        using write_srt_doc[of "files w4" segs s] by simp
      define w5 where "w5 = w4\<lparr>files := fs5\<rparr>"
      have st5: "supabase w5 = supabase w1" using st3 by (simp add: w5_def w4_def)
      define r where "r = burn_subs e w5 v s"
      have st6: "supabase (snd r) = supabase w1"
        using burn_subs_store[of e w5 v s] st5 by (simp add: r_def)
      have pip: "pipeline e w1 file email plan =
          (case r of (Inl err, w6) \<Rightarrow> (Inl err, w6)
           | (Inr final_path, w6) \<Rightarrow>
               (let w7 = add_use e w6 email (basename v) plan
                in (deliver w7 final_path, w7)))"
        by (simp add: pipeline_def save ex tr wr s_def[symmetric] Let_def w5_def r_def)
      show ?thesis
      proof (cases "fst r")
        case (Inl err)
        then obtain w6 where r: "r = (Inl err, w6)" by (cases r) auto
        have "pipeline e w1 file email plan = (Inl err, w6)"
          by (simp add: pip r)
        moreover have "(\<forall>c m. err \<noteq> HTTPException c m) \<and> (\<forall>p. err \<noteq> FileNotFoundError p)"
          using burn_subs_error[of e w5 v s err] Inl by (simp add: r_def)
        ultimately show ?thesis using st6 by (simp add: r)
      next
        case (Inr out)
        then obtain w6 where r: "r = (Inr out, w6)" by (cases r) auto
        define w7 where "w7 = add_use e w6 email (basename v) plan"
        have p7: "pipeline e w1 file email plan = (deliver w7 out, w7)"
          by (simp add: pip r Let_def w7_def[symmetric])
        have s7: "supabase w7 = supabase (add_use e w1 email (basename v) plan)"
          using st6 by (simp add: w7_def add_use_def r split: option.splits)
        show ?thesis
        proof (cases "files w7 out")
          case None
          then have "deliver w7 out = Inl (FileNotFoundError out)" by (simp add: deliver_def)
          then show ?thesis using p7 s7 by (simp add: v_def)
        next
          case (Some content)
          then obtain resp where "deliver w7 out = Inr resp" by (simp add: deliver_def)
          then show ?thesis using p7 s7 by (simp add: v_def)
        qed
      qed
    qed
  qed
qed

subsection \<open>Usage accounting of the orchestrator\<close>

lemma pipeline_extract_fail:
  assumes "fst (ffmpeg e (extract_cmd (join_temp (uuid4 e @ str ''.mp4''))
             (rsplit_dot_head (join_temp (uuid4 e @ str ''.mp4'')) @ str ''.mp3''))) \<noteq> 0"
  shows "fst (pipeline e w1 file email plan) =
           Inl (CalledProcessError (fst (ffmpeg e (extract_cmd (join_temp (uuid4 e @ str ''.mp4''))
             (rsplit_dot_head (join_temp (uuid4 e @ str ''.mp4'')) @ str ''.mp3''))))) \<and>
         calls (snd (pipeline e w1 file email plan)) =
           calls w1 @ [Ffmpeg (extract_cmd (join_temp (uuid4 e @ str ''.mp4''))
             (rsplit_dot_head (join_temp (uuid4 e @ str ''.mp4'')) @ str ''.mp3''))]"
  using assms
  by (simp add: pipeline_def save_temp_file_def Let_def extract_audio_cases(2))

lemma pipeline_whisper_fail:
  assumes "fst (ffmpeg e (extract_cmd (join_temp (uuid4 e @ str ''.mp4''))
             (rsplit_dot_head (join_temp (uuid4 e @ str ''.mp4'')) @ str ''.mp3''))) = 0"
    and "whisper e (rsplit_dot_head (join_temp (uuid4 e @ str ''.mp4'')) @ str ''.mp3'') = None"
  shows "fst (pipeline e w1 file email plan) = Inl EngineError \<and>
         calls (snd (pipeline e w1 file email plan)) =
           calls w1 @ [Ffmpeg (extract_cmd (join_temp (uuid4 e @ str ''.mp4''))
             (rsplit_dot_head (join_temp (uuid4 e @ str ''.mp4'')) @ str ''.mp3'')),
             Whisper (rsplit_dot_head (join_temp (uuid4 e @ str ''.mp4'')) @ str ''.mp3'')]"
  using assms
  by (simp add: pipeline_def save_temp_file_def Let_def extract_audio_cases(1)
      transcribe_segments_def)

lemma full_process_admitted:
  assumes "email \<noteq> []" "64 \<in> set email"
    and "count_uses_this_month e w email < limit_for (fst (get_or_create_user w email))"
  shows "full_process e w file email =
     pipeline e (snd (get_or_create_user w email)) file email (fst (get_or_create_user w email))"
  using assms count_after_get_or_create[of e w email email]
  by (simp add: full_process_def Let_def split_def)

lemma full_process_store:
  "(\<not> valid_email email \<and> snd (full_process e w file email) = w \<and>
      (\<exists>c m. fst (full_process e w file email) = Inl (HTTPException c m))) \<or>
   (valid_email email \<and>
      ((\<exists>resp. fst (full_process e w file email) = Inr resp \<and>
          supabase (snd (full_process e w file email)) =
            supabase (add_use e (snd (get_or_create_user w email)) email
               (basename (join_temp (uuid4 e @ str ''.mp4''))) (fst (get_or_create_user w email)))) \<or>
       (\<exists>p. fst (full_process e w file email) = Inl (FileNotFoundError p) \<and>
          supabase (snd (full_process e w file email)) =
            supabase (add_use e (snd (get_or_create_user w email)) email
               (basename (join_temp (uuid4 e @ str ''.mp4''))) (fst (get_or_create_user w email)))) \<or>
       (\<exists>err. fst (full_process e w file email) = Inl err \<and>
          (\<forall>p. err \<noteq> FileNotFoundError p) \<and>
          supabase (snd (full_process e w file email)) =
            supabase (snd (get_or_create_user w email)))))"
proof (cases "valid_email email")
  case False
  then show ?thesis by (auto simp: full_process_def valid_email_def)
next
  case valid: True
  show ?thesis
  proof (cases "limit_for (fst (get_or_create_user w email)) \<le>
      count_uses_this_month e (snd (get_or_create_user w email)) email")
    case True
    then show ?thesis
      using valid by (simp add: full_process_def Let_def split_def valid_email_def)
  next
    case False
    then have fp: "full_process e w file email =
        pipeline e (snd (get_or_create_user w email)) file email (fst (get_or_create_user w email))"
      using valid by (simp add: full_process_def Let_def split_def valid_email_def)
    show ?thesis
      unfolding fp
      using pipeline_outcome[of e "snd (get_or_create_user w email)" "file" email
          "fst (get_or_create_user w email)"] valid
      by auto
  qed
qed

lemma get_or_create_user_usos:
  "supabase w = Some d \<Longrightarrow>
   \<exists>d1. supabase (snd (get_or_create_user w email)) = Some d1 \<and> usos d1 = usos d"
  by (simp add: get_or_create_user_def split: list.splits)

lemma full_process_usos:
  assumes c: "supabase w = Some d"
  shows "\<exists>d'. supabase (snd (full_process e w upload email)) = Some d' \<and>
         ((\<exists>resp. fst (full_process e w upload email) = Inr resp) \<longrightarrow>
            (\<exists>u. usos d' = usos d @ [u] \<and> uso_email u = email)) \<and>
         ((\<exists>err. fst (full_process e w upload email) = Inl err \<and>
                 (\<forall>p. err \<noteq> FileNotFoundError p)) \<longrightarrow> usos d' = usos d)"
proof -
  obtain d1 where d1: "supabase (snd (get_or_create_user w email)) = Some d1" "usos d1 = usos d"
    using get_or_create_user_usos[OF c, of email] by auto
  consider (invalid) cd m where "snd (full_process e w upload email) = w"
      "fst (full_process e w upload email) = Inl (HTTPException cd m)"
    | (ok) resp where "fst (full_process e w upload email) = Inr resp"
      "supabase (snd (full_process e w upload email)) =
        supabase (add_use e (snd (get_or_create_user w email)) email
           (basename (join_temp (uuid4 e @ str ''.mp4''))) (fst (get_or_create_user w email)))"
    | (unopened) p where "fst (full_process e w upload email) = Inl (FileNotFoundError p)"
    | (failed) err where "fst (full_process e w upload email) = Inl err"
      "\<forall>p. err \<noteq> FileNotFoundError p"
      "supabase (snd (full_process e w upload email)) = supabase (snd (get_or_create_user w email))"
    using full_process_store[of email e w upload] by blast
  then show ?thesis
  proof cases
    case invalid
    then show ?thesis using c by simp
  next
    case ok
    show ?thesis
      unfolding ok using d1 by (simp add: add_use_def)
  next
    case unopened
    obtain d' where "supabase (snd (full_process e w upload email)) = Some d'"
      using full_process_store[of email e w upload] c d1 unopened
      by (auto simp: add_use_def)
    then show ?thesis using unopened by simp
  next
    case failed
    then show ?thesis
      using d1 by auto
  qed
qed

lemma full_process_no_store:
  assumes n: "supabase w = None"
  shows "supabase (snd (full_process e w upload email)) = None"
proof -
  have g: "get_or_create_user w email = (str ''gratuito'', w)"
    using n by (simp add: get_or_create_user_def)
  show ?thesis
    using full_process_store[of email e w upload] n
    by (auto simp: g add_use_def)
qed

text \<open>
  C2 (amended). With the record store configured, a delivered run has appended
  exactly one usage record, for the request's email, and a run that ends with the
  error of a check or of a stage (validation, quota, extraction, transcription,
  track building, rendering: every error but the \<open>FileNotFoundError\<close> of opening the
  rendered file) leaves the table of uses as it was. Without a store nothing is
  recorded, also for a delivered run. A failed extraction ends the run after that
  one transcoder call, and a failed transcription after the engine call: no later
  stage runs. Track building never fails, and a failing renderer raises an error
  other than \<open>FileNotFoundError\<close>.
\<close>

theorem usage_recorded_iff_delivered:
  "(supabase w = Some d \<longrightarrow>
      (\<exists>d'. supabase (snd (full_process e w upload email)) = Some d' \<and>
         ((\<exists>resp. fst (full_process e w upload email) = Inr resp) \<longrightarrow>
            (\<exists>u. usos d' = usos d @ [u] \<and> uso_email u = email)) \<and>
         ((\<exists>err. fst (full_process e w upload email) = Inl err \<and>
                 (\<forall>p. err \<noteq> FileNotFoundError p)) \<longrightarrow> usos d' = usos d))) \<and>
   (supabase w = None \<longrightarrow> supabase (snd (full_process e w upload email)) = None) \<and>
   (let v = join_temp (uuid4 e @ str ''.mp4''); a = rsplit_dot_head v @ str ''.mp3''
    in (email \<noteq> [] \<and> 64 \<in> set email \<and>
        count_uses_this_month e w email < limit_for (fst (get_or_create_user w email)) \<and>
        fst (ffmpeg e (extract_cmd v a)) \<noteq> 0 \<longrightarrow>
          fst (full_process e w upload email) =
            Inl (CalledProcessError (fst (ffmpeg e (extract_cmd v a)))) \<and>
          calls (snd (full_process e w upload email)) = calls w @ [Ffmpeg (extract_cmd v a)]) \<and>
       (email \<noteq> [] \<and> 64 \<in> set email \<and>
        count_uses_this_month e w email < limit_for (fst (get_or_create_user w email)) \<and>
        fst (ffmpeg e (extract_cmd v a)) = 0 \<and> whisper e a = None \<longrightarrow>
          fst (full_process e w upload email) = Inl EngineError \<and>
          calls (snd (full_process e w upload email)) =
            calls w @ [Ffmpeg (extract_cmd v a), Whisper a])) \<and>
   (\<exists>fs1. write_srt fs0 segments srt_path = Inr fs1) \<and>
   (\<forall>err. fst (burn_subs e w5 video_path srt_path) = Inl err \<longrightarrow>
      (\<forall>p. err \<noteq> FileNotFoundError p))"
proof (intro conjI impI allI)
  assume c: "supabase w = Some d"
  then show "\<exists>d'. supabase (snd (full_process e w upload email)) = Some d' \<and>
         ((\<exists>resp. fst (full_process e w upload email) = Inr resp) \<longrightarrow>
            (\<exists>u. usos d' = usos d @ [u] \<and> uso_email u = email)) \<and>
         ((\<exists>err. fst (full_process e w upload email) = Inl err \<and>
                 (\<forall>p. err \<noteq> FileNotFoundError p)) \<longrightarrow> usos d' = usos d)"
    by (rule full_process_usos)
next
  assume "supabase w = None"
  then show "supabase (snd (full_process e w upload email)) = None"
    by (rule full_process_no_store)
next
  show "let v = join_temp (uuid4 e @ str ''.mp4''); a = rsplit_dot_head v @ str ''.mp3''
    in (email \<noteq> [] \<and> 64 \<in> set email \<and>
        count_uses_this_month e w email < limit_for (fst (get_or_create_user w email)) \<and>
        fst (ffmpeg e (extract_cmd v a)) \<noteq> 0 \<longrightarrow>
          fst (full_process e w upload email) =
            Inl (CalledProcessError (fst (ffmpeg e (extract_cmd v a)))) \<and>
          calls (snd (full_process e w upload email)) = calls w @ [Ffmpeg (extract_cmd v a)]) \<and>
       (email \<noteq> [] \<and> 64 \<in> set email \<and>
        count_uses_this_month e w email < limit_for (fst (get_or_create_user w email)) \<and>
        fst (ffmpeg e (extract_cmd v a)) = 0 \<and> whisper e a = None \<longrightarrow>
          fst (full_process e w upload email) = Inl EngineError \<and>
          calls (snd (full_process e w upload email)) =
            calls w @ [Ffmpeg (extract_cmd v a), Whisper a])"
    unfolding Let_def
    using get_or_create_user_keeps[of w email]
    by (auto simp: full_process_admitted pipeline_extract_fail pipeline_whisper_fail)
next
  show "\<exists>fs1. write_srt fs0 segments srt_path = Inr fs1"
    by (simp add: write_srt_doc)
next
  fix err p
  assume "fst (burn_subs e w5 video_path srt_path) = Inl err"
  then show "err \<noteq> FileNotFoundError p"
    using burn_subs_error[of e w5 video_path srt_path err] by simp
qed

lemma delivered_env_ok:
  "fst (full_process env_ok w_empty [7] (str ''a@b.com'')) =
     Inr \<lparr>body = [1, 2, 3], media_type = str ''video/mp4'',
          headers = [(str ''Content-Disposition'',
                      str ''attachment; filename='' @ [34] @ str ''video_legenda.mp4'' @ [34])]\<rparr>"
  by code_simp

theorem usage_recorded_iff_delivered_witness:
  "supabase w_empty = Some \<lparr>usuarios = [], usos = []\<rparr> \<and>
   (\<exists>d' u. supabase (snd (full_process env_ok w_empty [7] (str ''a@b.com''))) = Some d' \<and>
      usos d' = [u] \<and> uso_email u = str ''a@b.com'') \<and>
   fst (full_process env_fails w_empty [7] (str ''a@b.com'')) = Inl (CalledProcessError 1) \<and>
   calls (snd (full_process env_fails w_empty [7] (str ''a@b.com''))) =
     [Ffmpeg (extract_cmd (str ''temp/job.mp4'') (str ''temp/job.mp3''))] \<and>
   (\<exists>d'. supabase (snd (full_process env_fails w_empty [7] (str ''a@b.com''))) = Some d' \<and>
      usos d' = [])"
proof -
  have c: "supabase w_empty = Some \<lparr>usuarios = [], usos = []\<rparr>" "calls w_empty = []"
    by (simp_all add: w_empty_def)
  have v: "join_temp (uuid4 env_fails @ str ''.mp4'') = str ''temp/job.mp4''"
    "rsplit_dot_head (str ''temp/job.mp4'') @ str ''.mp3'' = str ''temp/job.mp3''"
    by code_simp+
  have m: "str ''a@b.com'' \<noteq> [] \<and> 64 \<in> set (str ''a@b.com'')" by (simp add: str_def)
  have q: "count_uses_this_month env_fails w_empty (str ''a@b.com'') <
      limit_for (fst (get_or_create_user w_empty (str ''a@b.com'')))"
    by (simp add: count_uses_this_month_def get_or_create_user_def w_empty_def env_fails_def
        env_ok_def limit_for_def plan_limits_def)
  have f: "fst (ffmpeg env_fails x) = 1" for x by (simp add: env_fails_def env_ok_def)
  have e: "fst (full_process env_fails w_empty [7] (str ''a@b.com'')) = Inl (CalledProcessError 1)"
    using usage_recorded_iff_delivered[of w_empty "\<lparr>usuarios = [], usos = []\<rparr>" env_fails "[7]"
        "str ''a@b.com''"] m q
    by (simp add: Let_def v f)
  show ?thesis
    using usage_recorded_iff_delivered[of w_empty "\<lparr>usuarios = [], usos = []\<rparr>" env_ok "[7]"
        "str ''a@b.com''"]
      usage_recorded_iff_delivered[of w_empty "\<lparr>usuarios = [], usos = []\<rparr>" env_fails "[7]"
        "str ''a@b.com''"] m q e
    by (simp add: c delivered_env_ok Let_def v f)
qed

text \<open>
  C2 as stated fails: without a configured store a run is delivered and no usage
  record is written.
\<close>

theorem delivered_without_record_counterexample:
  "supabase w_none = None \<and>
   fst (full_process env_ok w_none [7] (str ''a@b.com'')) =
     Inr \<lparr>body = [1, 2, 3], media_type = str ''video/mp4'',
          headers = [(str ''Content-Disposition'',
                      str ''attachment; filename='' @ [34] @ str ''video_legenda.mp4'' @ [34])]\<rparr> \<and>
   supabase (snd (full_process env_ok w_none [7] (str ''a@b.com''))) = None"
  by code_simp

text \<open>
  The use is recorded before the rendered file is opened (\<open>add_use\<close> precedes \<open>open\<close>
  in \<open>full_process\<close>): when the transcoder exits with status 0 and leaves no file,
  the request fails with \<open>FileNotFoundError\<close> and the record stays.
\<close>

lemma record_precedes_open:
  "fst (full_process env_no_output w_empty [7] (str ''a@b.com'')) =
     Inl (FileNotFoundError (str ''temp/job_final.mp4'')) \<and>
   map_option (\<lambda>d. map uso_email (usos d))
     (supabase (snd (full_process env_no_output w_empty [7] (str ''a@b.com'')))) =
     Some [str ''a@b.com'']"
  by code_simp

subsection \<open>Unconfigured store\<close>

text \<open>
  C10. When the record-store client is absent, for every email the plan resolver
  returns the free plan and leaves the state as it is, the monthly counter returns
  0 and recording a use changes nothing; so the quota gate never rejects a request:
  no request is answered with 403, and every request with a valid email runs the
  pipeline under the free plan.
\<close>

theorem unconfigured_store_never_rejects:
  "supabase w = None \<longrightarrow>
     get_or_create_user w email = (str ''gratuito'', w) \<and>
     count_uses_this_month e w email = 0 \<and>
     add_use e w email video_name plan = w \<and>
     count_uses_this_month e w email < limit_for (str ''gratuito'') \<and>
     (\<forall>msg. fst (full_process e w upload email) \<noteq> Inl (HTTPException 403 msg)) \<and>
     (email \<noteq> [] \<and> 64 \<in> set email \<longrightarrow>
        full_process e w upload email = pipeline e w upload email (str ''gratuito''))"
proof
  assume n: "supabase w = None"
  have g: "get_or_create_user w email = (str ''gratuito'', w)"
    using n by (simp add: get_or_create_user_def)
  have c: "count_uses_this_month e w email = 0"
    using n by (simp add: count_uses_this_month_def)
  have a: "add_use e w email video_name plan = w"
    using n by (simp add: add_use_def)
  have l: "limit_for (str ''gratuito'') = 3"
    by (simp add: limit_for_def plan_limits_def str_def)
  have p: "full_process e w upload email = pipeline e w upload email (str ''gratuito'')"
    if "email \<noteq> [] \<and> 64 \<in> set email"
    using that by (simp add: full_process_def g c l)
  have "fst (full_process e w upload email) \<noteq> Inl (HTTPException 403 msg)" for msg
  proof (cases "email \<noteq> [] \<and> 64 \<in> set email")
    case True
    show ?thesis
      unfolding p[OF True]
      using pipeline_outcome[of e w upload email "str ''gratuito''"]
      by auto
  next
    case False
    then show ?thesis by (auto simp: full_process_def)
  qed
  then show "get_or_create_user w email = (str ''gratuito'', w) \<and>
     count_uses_this_month e w email = 0 \<and>
     add_use e w email video_name plan = w \<and>
     count_uses_this_month e w email < limit_for (str ''gratuito'') \<and>
     (\<forall>msg. fst (full_process e w upload email) \<noteq> Inl (HTTPException 403 msg)) \<and>
     (email \<noteq> [] \<and> 64 \<in> set email \<longrightarrow>
        full_process e w upload email = pipeline e w upload email (str ''gratuito''))"
    using g c a l p by simp
qed

theorem unconfigured_store_never_rejects_witness:
  "supabase w_none = None \<and>
   get_or_create_user w_none (str ''a@b.com'') = (str ''gratuito'', w_none) \<and>
   count_uses_this_month env_ok w_none (str ''a@b.com'') = 0 \<and>
   add_use env_ok w_none (str ''a@b.com'') (str ''job.mp4'') (str ''gratuito'') = w_none \<and>
   fst (full_process env_ok w_none [7] (str ''a@b.com'')) \<noteq>
     Inl (HTTPException 403 (quota_message (str ''gratuito'') 3))"
proof -
  have n: "supabase w_none = None" by (simp add: w_none_def)
  show ?thesis
    using unconfigured_store_never_rejects[of w_none "str ''a@b.com''" env_ok "str ''job.mp4''"
        "str ''gratuito''" "[7]"] n
    by simp
qed

subsection \<open>Quota gate\<close>

lemma invalid_email_below_quota:
  assumes "store_ok w" "\<not> valid_email email"
  shows "count_uses_this_month e w email = 0"
    and "fst (get_or_create_user w email) = str ''gratuito''"
proof -
  have u: "filter (\<lambda>u. u_email u = email) us = []"
    if "list_all (\<lambda>u. valid_email (u_email u)) us" for us
    using that assms(2) by (induction us) auto
  have r: "filter (\<lambda>r. uso_email r = email \<and> P r) rs = []"
    if "list_all (\<lambda>r. valid_email (uso_email r)) rs" for rs P
    using that assms(2) by (induction rs) auto
  show "count_uses_this_month e w email = 0"
    using assms(1) by (auto simp: count_uses_this_month_def store_ok_def r split: option.splits)
  show "fst (get_or_create_user w email) = str ''gratuito''"
    using assms(1) by (auto simp: get_or_create_user_def store_ok_def u split: option.splits)
qed

lemma store_ok_cong: "supabase w = supabase w' \<Longrightarrow> store_ok w = store_ok w'"
  by (simp add: store_ok_def)

lemma get_or_create_user_store_ok:
  "valid_email email \<Longrightarrow> store_ok w \<Longrightarrow> store_ok (snd (get_or_create_user w email))"
  by (auto simp: get_or_create_user_def store_ok_def split: option.splits list.splits)

lemma add_use_store_ok:
  "valid_email email \<Longrightarrow> store_ok w \<Longrightarrow> store_ok (add_use e w email video_name plan)"
  by (auto simp: add_use_def store_ok_def split: option.splits)

lemma full_process_store_ok:
  assumes "store_ok w"
  shows "store_ok (snd (full_process e w upload email))"
proof (cases "valid_email email")
  case False
  then show ?thesis using full_process_store[of email e w upload] assms by auto
next
  case True
  note g = get_or_create_user_store_ok[OF True assms]
  note a = add_use_store_ok[OF True g, of e "basename (join_temp (uuid4 e @ str ''.mp4''))"
      "fst (get_or_create_user w email)"]
  from full_process_store[of email e w upload] True
  consider "supabase (snd (full_process e w upload email)) =
        supabase (add_use e (snd (get_or_create_user w email)) email
           (basename (join_temp (uuid4 e @ str ''.mp4''))) (fst (get_or_create_user w email)))"
    | "supabase (snd (full_process e w upload email)) = supabase (snd (get_or_create_user w email))"
    by blast
  then show ?thesis
  proof cases
    case 1
    then show ?thesis using a store_ok_cong by blast
  next
    case 2
    then show ?thesis using g store_ok_cong by blast
  qed
qed

lemma stripe_webhook_store_ok:
  assumes "store_ok w"
  shows "store_ok (snd (stripe_webhook e w payload sig))"
proof -
  have m: "list_all (\<lambda>u. valid_email (u_email u))
             (map (\<lambda>u. if P u then u\<lparr>u_plano := str ''criador''\<rparr> else u) us)"
    if "list_all (\<lambda>u. valid_email (u_email u)) us" for us P
    using that by (induction us) auto
  show ?thesis
    using assms
    by (auto simp: stripe_webhook_def store_ok_def m split: option.splits field.splits)
qed

lemma quota_gate_valid:
  assumes "valid_email email"
    and "limit_for (fst (get_or_create_user w email)) \<le> count_uses_this_month e w email"
  shows "full_process e w upload email =
     (Inl (HTTPException 403
        (quota_message (fst (get_or_create_user w email))
           (limit_for (fst (get_or_create_user w email))))),
      snd (get_or_create_user w email))"
  using assms count_after_get_or_create[of e w email email]
  by (simp add: full_process_def Let_def split_def valid_email_def)

text \<open>
  C1. For every processing request, if the uses of this month reach the allowance
  of the user's plan, the request is rejected with HTTP 403 and a message naming the
  plan and the limit, before any processing: the files are unchanged (no temp file
  is saved), no external call is made (no extraction, no transcription) and the
  table of uses is unchanged. This holds for every request with a valid email, and
  for every request at all on a store whose rows are keyed by valid emails. The
  stores the service reaches are of that kind: the absent and the empty store are,
  and \<open>full_process\<close> and the webhook keep the property.
\<close>

theorem quota_gate:
  "((valid_email email \<or> store_ok w) \<and>
    limit_for (fst (get_or_create_user w email)) \<le> count_uses_this_month e w email \<longrightarrow>
      full_process e w upload email =
        (Inl (HTTPException 403
           (quota_message (fst (get_or_create_user w email))
              (limit_for (fst (get_or_create_user w email))))),
         snd (get_or_create_user w email)) \<and>
      files (snd (full_process e w upload email)) = files w \<and>
      calls (snd (full_process e w upload email)) = calls w \<and>
      map_option usos (supabase (snd (full_process e w upload email))) =
        map_option usos (supabase w)) \<and>
   (store_ok w \<longrightarrow>
      store_ok (snd (full_process e w upload email)) \<and>
      store_ok (snd (stripe_webhook e w payload sig))) \<and>
   (supabase w = None \<or> supabase w = Some \<lparr>usuarios = [], usos = []\<rparr> \<longrightarrow> store_ok w)"
proof (intro conjI impI)
  assume a: "(valid_email email \<or> store_ok w) \<and>
    limit_for (fst (get_or_create_user w email)) \<le> count_uses_this_month e w email"
  have v: "valid_email email"
  proof (rule ccontr)
    assume n: "\<not> valid_email email"
    then have "store_ok w" using a by simp
    then have "count_uses_this_month e w email = 0"
      and "fst (get_or_create_user w email) = str ''gratuito''"
      using invalid_email_below_quota(1)[of w email e] invalid_email_below_quota(2)[of w email] n
      by simp_all
    then show False
      using a by (simp add: limit_for_def plan_limits_def str_def)
  qed
  have fp: "full_process e w upload email =
        (Inl (HTTPException 403
           (quota_message (fst (get_or_create_user w email))
              (limit_for (fst (get_or_create_user w email))))),
         snd (get_or_create_user w email))"
    using quota_gate_valid[OF v] a by simp
  then show "full_process e w upload email =
        (Inl (HTTPException 403
           (quota_message (fst (get_or_create_user w email))
              (limit_for (fst (get_or_create_user w email))))),
         snd (get_or_create_user w email))" .
  show "files (snd (full_process e w upload email)) = files w"
    unfolding fp using get_or_create_user_keeps[of w email] by simp
  show "calls (snd (full_process e w upload email)) = calls w"
    unfolding fp using get_or_create_user_keeps[of w email] by simp
  show "map_option usos (supabase (snd (full_process e w upload email))) =
        map_option usos (supabase w)"
    unfolding fp using get_or_create_user_keeps[of w email] by simp
next
  assume "store_ok w"
  then show "store_ok (snd (full_process e w upload email))"
    by (rule full_process_store_ok)
next
  assume "store_ok w"
  then show "store_ok (snd (stripe_webhook e w payload sig))"
    by (rule stripe_webhook_store_ok)
next
  assume "supabase w = None \<or> supabase w = Some \<lparr>usuarios = [], usos = []\<rparr>"
  then show "store_ok w" by (auto simp: store_ok_def)
qed

lemma w_full_facts:
  "fst (get_or_create_user w_full (str ''a@b.com'')) = str ''gratuito''"
  "snd (get_or_create_user w_full (str ''a@b.com'')) = w_full"
  "count_uses_this_month env_ok w_full (str ''a@b.com'') = 3"
  "store_ok w_full"
  "valid_email (str ''a@b.com'')"
  by (simp_all add: get_or_create_user_def count_uses_this_month_def w_full_def env_ok_def
      uso_ab_def dt_le_def str_def store_ok_def valid_email_def)

theorem quota_gate_witness:
  "store_ok w_full \<and> valid_email (str ''a@b.com'') \<and>
   limit_for (fst (get_or_create_user w_full (str ''a@b.com''))) \<le>
     count_uses_this_month env_ok w_full (str ''a@b.com'') \<and>
   full_process env_ok w_full [7] (str ''a@b.com'') =
     (Inl (HTTPException 403 (quota_message (str ''gratuito'') 3)), w_full) \<and>
   quota_message (str ''gratuito'') 3 =
     str ''Limite do plano '' @ [39] @ str ''gratuito'' @ [39] @ str '' atingido (3/m'' @ [234] @
     str ''s). Fa'' @ [231] @ str ''a upgrade.'' \<and>
   store_ok (snd (full_process env_ok w_full [7] (str ''a@b.com'')))"
proof -
  have l: "limit_for (str ''gratuito'') = 3" by (simp add: limit_for_def plan_limits_def str_def)
  have m: "quota_message (str ''gratuito'') 3 =
     str ''Limite do plano '' @ [39] @ str ''gratuito'' @ [39] @ str '' atingido (3/m'' @ [234] @
     str ''s). Fa'' @ [231] @ str ''a upgrade.''"
    by (simp add: quota_message_def str_int_def digits.simps str_def)
  show ?thesis
    using quota_gate[of "str ''a@b.com''" w_full env_ok "[7]" "[]" None] m
    by (simp add: w_full_facts l)
qed

end
